theory Spec2Isabelle
  imports Complex_Main
begin

section \<open>Tick-to-row transformer (snapshot\_builder.py)\<close>

text \<open>
  Prices are Python floats; they are modelled as exact reals, so the rounding of float
  arithmetic is not part of the model. Quantities and timestamps are Python ints.
  A dictionary read with \<open>.get\<close> becomes a record of optional fields: \<open>None\<close> is
  an absent key.
\<close>

record level =
  price :: "real option"
  quantity :: "int option"

record depth =
  buy :: "level list option"
  sell :: "level list option"

text \<open>
  A datetime is either timezone-aware (an instant, in microseconds since the Unix epoch)
  or naive (its wall-clock fields, counted in microseconds as if they were UTC).
\<close>

datatype datetime = Aware int | Naive int

record tick =
  instrument_token :: "int option"
  last_price :: "real option"
  last_quantity :: "int option"
  exchange_timestamp :: "datetime option"
  timestamp :: "datetime option"
  tick_depth :: "depth option"

text \<open>The empty dictionary \<open>{}\<close> that \<open>build_snapshot\<close> passes for a token with no tick.\<close>

definition empty_tick :: tick where
  "empty_tick = \<lparr>instrument_token = None, last_price = None, last_quantity = None,
     exchange_timestamp = None, timestamp = None, tick_depth = None\<rparr>"

record contract_meta =
  meta_instrument_token :: "int option"
  meta_tradingsymbol :: "string option"
  meta_underlying :: "string option"
  meta_expiry :: "string option"
  meta_expiry_yyyymmdd :: "string option"
  meta_strike :: "real option"
  meta_option_type :: "string option"
  meta_option_type_short :: "string option"
  meta_instrument_id :: "string option"
  meta_lot_size :: "int option"

text \<open>The row dictionary of \<open>build_row\<close>: one field per entry of \<open>COLUMNS\<close>.\<close>

record row =
  ts :: int
  venue :: string
  underlying_symbol :: string
  underlying_spot :: "real option"
  instrument_id :: string
  option_symbol :: string
  expiry_date :: string
  strike :: "real option"
  option_type :: string
  best_bid_px :: "real option"
  best_bid_sz :: "int option"
  best_ask_px :: "real option"
  best_ask_sz :: "int option"
  mid_px :: "real option"
  spread :: "real option"
  last_trade_px :: "real option"
  last_trade_sz :: "int option"
  bid_px_1 :: "real option"
  bid_sz_1 :: "int option"
  bid_px_2 :: "real option"
  bid_sz_2 :: "int option"
  bid_px_3 :: "real option"
  bid_sz_3 :: "int option"
  ask_px_1 :: "real option"
  ask_sz_1 :: "int option"
  ask_px_2 :: "real option"
  ask_sz_2 :: "int option"
  ask_px_3 :: "real option"
  ask_sz_3 :: "int option"

text \<open>
  The builder: its venue label, its spot prices, and its timezone. The timezone database
  (pytz) is not part of the repository, so the zone is a parameter: \<open>tz_offset b l\<close> is
  the UTC offset, in microseconds, of the naive local time \<open>l\<close>.
\<close>

record snapshot_builder =
  venue_label :: string
  tz_offset :: "int \<Rightarrow> int"
  spot_prices :: "string \<rightharpoonup> real"

definition set_spot_price :: "snapshot_builder \<Rightarrow> string \<Rightarrow> real \<Rightarrow> snapshot_builder" where
  "set_spot_price b u spot = b\<lparr>spot_prices := (spot_prices b)(u \<mapsto> spot)\<rparr>"

text \<open>
  \<open>_ts_to_micros\<close>: \<open>now\<close> is the reading of the wall clock (microseconds since the
  epoch) that \<open>datetime.now\<close> would return; it is used only when no datetime is given.
\<close>

definition ts_to_micros :: "snapshot_builder \<Rightarrow> int \<Rightarrow> datetime option \<Rightarrow> int" where
  "ts_to_micros b now dt =
     (case dt of
        None \<Rightarrow> now
      | Some (Naive l) \<Rightarrow> l - tz_offset b l
      | Some (Aware u) \<Rightarrow> u)"

text \<open>\<open>tick.get("depth", {}).get(side, [])\<close>\<close>

definition depth_side :: "tick \<Rightarrow> string \<Rightarrow> level list" where
  "depth_side t side =
     (case tick_depth t of
        None \<Rightarrow> []
      | Some d \<Rightarrow>
          (case (if side = ''buy'' then buy d else if side = ''sell'' then sell d else None) of
             None \<Rightarrow> []
           | Some ls \<Rightarrow> ls))"

text \<open>
  The loop \<open>for i in range(levels)\<close> of \<open>_extract_depth\<close>: \<open>i\<close> is the loop index,
  the third argument counts the iterations left, the last is \<open>result\<close>.
\<close>

fun extract_depth_loop ::
  "level list \<Rightarrow> nat \<Rightarrow> nat \<Rightarrow> (real option \<times> int option) list \<Rightarrow> (real option \<times> int option) list"
where
  "extract_depth_loop d i 0 result = result"
| "extract_depth_loop d i (Suc n) result =
     extract_depth_loop d (Suc i) n
       (result @
         [if i < length d
          then (if price (d ! i) = Some 0 then (None, None) else (price (d ! i), quantity (d ! i)))
          else (None, None)])"

definition extract_depth :: "tick \<Rightarrow> string \<Rightarrow> nat \<Rightarrow> (real option \<times> int option) list" where
  "extract_depth t side levels = extract_depth_loop (depth_side t side) 0 levels []"

definition compute_mid_spread :: "real option \<Rightarrow> real option \<Rightarrow> real option \<times> real option" where
  "compute_mid_spread best_bid best_ask =
     (case (best_bid, best_ask) of
        (Some bid, Some ask) \<Rightarrow> (Some ((bid + ask) / 2), Some (ask - bid))
      | _ \<Rightarrow> (None, None))"

definition str_or_empty :: "string option \<Rightarrow> string" where
  "str_or_empty v = (case v of None \<Rightarrow> [] | Some s \<Rightarrow> s)"

text \<open>
  \<open>build_row\<close>. \<open>now\<close> is the wall clock this call would read; \<open>ts_micros\<close> is the
  optional argument of the same name.
\<close>

definition build_row :: "snapshot_builder \<Rightarrow> int \<Rightarrow> tick \<Rightarrow> contract_meta \<Rightarrow> int option \<Rightarrow> row" where
  "build_row b now t meta ts_micros =
     (let und = str_or_empty (meta_underlying meta);
          spot = spot_prices b und;
          ts_val =
            (case ts_micros of
               Some v \<Rightarrow> v
             | None \<Rightarrow>
                 (case (case exchange_timestamp t of Some e \<Rightarrow> Some e | None \<Rightarrow> timestamp t) of
                    Some tick_ts \<Rightarrow> ts_to_micros b now (Some tick_ts)
                  | None \<Rightarrow> ts_to_micros b now None));
          bids = extract_depth t ''buy'' 3;
          asks = extract_depth t ''sell'' 3;
          bb_px = (if bids \<noteq> [] then fst (bids ! 0) else None);
          bb_sz = (if bids \<noteq> [] then snd (bids ! 0) else None);
          ba_px = (if asks \<noteq> [] then fst (asks ! 0) else None);
          ba_sz = (if asks \<noteq> [] then snd (asks ! 0) else None);
          ms = compute_mid_spread bb_px ba_px
      in \<lparr>ts = ts_val,
          venue = venue_label b,
          underlying_symbol = und,
          underlying_spot = spot,
          instrument_id = str_or_empty (meta_instrument_id meta),
          option_symbol = str_or_empty (meta_tradingsymbol meta),
          expiry_date = str_or_empty (meta_expiry meta),
          strike = meta_strike meta,
          option_type = str_or_empty (meta_option_type_short meta),
          best_bid_px = bb_px,
          best_bid_sz = bb_sz,
          best_ask_px = ba_px,
          best_ask_sz = ba_sz,
          mid_px = fst ms,
          spread = snd ms,
          last_trade_px = last_price t,
          last_trade_sz = (case last_quantity t of None \<Rightarrow> Some 0 | Some q \<Rightarrow> Some q),
          bid_px_1 = (if length bids > 0 then fst (bids ! 0) else None),
          bid_sz_1 = (if length bids > 0 then snd (bids ! 0) else None),
          bid_px_2 = (if length bids > 1 then fst (bids ! 1) else None),
          bid_sz_2 = (if length bids > 1 then snd (bids ! 1) else None),
          bid_px_3 = (if length bids > 2 then fst (bids ! 2) else None),
          bid_sz_3 = (if length bids > 2 then snd (bids ! 2) else None),
          ask_px_1 = (if length asks > 0 then fst (asks ! 0) else None),
          ask_sz_1 = (if length asks > 0 then snd (asks ! 0) else None),
          ask_px_2 = (if length asks > 1 then fst (asks ! 1) else None),
          ask_sz_2 = (if length asks > 1 then snd (asks ! 1) else None),
          ask_px_3 = (if length asks > 2 then fst (asks ! 2) else None),
          ask_sz_3 = (if length asks > 2 then snd (asks ! 2) else None)\<rparr>)"

text \<open>
  \<open>build_snapshot\<close>. The universe is a Python dict, iterated in insertion order: a list
  of (token, metadata) pairs. \<open>clock k\<close> is the k-th reading of the wall clock during the
  call: reading 0 is the one \<open>build_snapshot\<close> takes itself when \<open>ts_micros\<close> is
  absent, reading \<open>k + 1\<close> is the one the k-th \<open>build_row\<close> call would take.
\<close>

fun build_snapshot_loop ::
  "snapshot_builder \<Rightarrow> (nat \<Rightarrow> int) \<Rightarrow> (int \<rightharpoonup> tick) \<Rightarrow> (int \<times> contract_meta) list \<Rightarrow>
   int \<Rightarrow> nat \<Rightarrow> row list \<Rightarrow> row list"
where
  "build_snapshot_loop b clock ticks [] ts_val k rows = rows"
| "build_snapshot_loop b clock ticks ((token, meta) # rest) ts_val k rows =
     build_snapshot_loop b clock ticks rest ts_val (Suc k)
       (rows @
         [build_row b (clock (Suc k))
            (case ticks token of None \<Rightarrow> empty_tick | Some t \<Rightarrow> t) meta (Some ts_val)])"

definition build_snapshot ::
  "snapshot_builder \<Rightarrow> (nat \<Rightarrow> int) \<Rightarrow> (int \<rightharpoonup> tick) \<Rightarrow> (int \<times> contract_meta) list \<Rightarrow>
   int option \<Rightarrow> row list"
where
  "build_snapshot b clock ticks universe ts_micros =
     build_snapshot_loop b clock ticks universe
       (case ts_micros of None \<Rightarrow> ts_to_micros b (clock 0) None | Some v \<Rightarrow> v) 0 []"

text \<open>A tick whose first bid level carries the zero-price sentinel with a quantity.\<close>

definition depth_example_tick :: tick where
  "depth_example_tick = empty_tick\<lparr>tick_depth :=
     Some \<lparr>buy = Some [\<lparr>price = Some 0, quantity = Some 55\<rparr>,
                       \<lparr>price = Some 150, quantity = Some 100\<rparr>],
           sell = None\<rparr>\<rparr>"

text \<open>A tick with a real quote on both sides, and a builder and metadata to build rows with.\<close>

definition mid_example_tick :: tick where
  "mid_example_tick = empty_tick\<lparr>tick_depth :=
     Some \<lparr>buy = Some [\<lparr>price = Some 150, quantity = Some 100\<rparr>],
           sell = Some [\<lparr>price = Some 152, quantity = Some 75\<rparr>]\<rparr>\<rparr>"

definition mid_example_builder :: snapshot_builder where
  "mid_example_builder =
     \<lparr>venue_label = ''NSE-FO'', tz_offset = (\<lambda>l. 19800000000), spot_prices = Map.empty\<rparr>"

definition mid_example_meta :: contract_meta where
  "mid_example_meta =
     \<lparr>meta_instrument_token = Some 111, meta_tradingsymbol = Some ''NIFTY24JAN24000CE'',
      meta_underlying = Some ''NIFTY'', meta_expiry = Some ''2024-01-25'',
      meta_expiry_yyyymmdd = Some ''20240125'', meta_strike = Some 24000,
      meta_option_type = Some ''CE'', meta_option_type_short = Some ''C'',
      meta_instrument_id = Some ''NIFTY_20240125_24000CE'', meta_lot_size = Some 50\<rparr>"

text \<open>A tick that carries an exchange timestamp of its own.\<close>

definition stamped_example_tick :: tick where
  "stamped_example_tick = mid_example_tick\<lparr>exchange_timestamp := Some (Aware 1700000000000000)\<rparr>"

section \<open>Contract metadata (option\_universe.py)\<close>

text \<open>Decimal rendering of Python ints (\<open>str\<close>) and the date formats of \<open>strftime\<close>.\<close>

definition digit_char :: "nat \<Rightarrow> char" where
  "digit_char n = ''0123456789'' ! n"

fun str_nat :: "nat \<Rightarrow> string" where
  "str_nat n = (if n < 10 then [digit_char n] else str_nat (n div 10) @ [digit_char (n mod 10)])"

declare str_nat.simps [simp del]

definition str_int :: "int \<Rightarrow> string" where
  "str_int i = (if i < 0 then CHR ''-'' # str_nat (nat (- i)) else str_nat (nat i))"

text \<open>\<open>int(x)\<close> of a float: truncation towards zero.\<close>

definition int_of_float :: "real \<Rightarrow> int" where
  "int_of_float x = (if 0 \<le> x then \<lfloor>x\<rfloor> else \<lceil>x\<rceil>)"

definition zero_pad :: "nat \<Rightarrow> string \<Rightarrow> string" where
  "zero_pad w s = replicate (w - length s) CHR ''0'' @ s"

text \<open>
  A calendar date (\<open>datetime.date\<close>, or the date part of a \<open>pandas.Timestamp\<close>).
  \<open>strftime_ymd\<close> is \<open>strftime("%Y%m%d")\<close> and \<open>strftime_iso\<close> is
  \<open>strftime("%Y-%m-%d")\<close>, with the year padded to four digits.
\<close>

record date =
  year :: nat
  month :: nat
  day :: nat

definition strftime_ymd :: "date \<Rightarrow> string" where
  "strftime_ymd d =
     zero_pad 4 (str_nat (year d)) @ zero_pad 2 (str_nat (month d)) @ zero_pad 2 (str_nat (day d))"

definition strftime_iso :: "date \<Rightarrow> string" where
  "strftime_iso d =
     zero_pad 4 (str_nat (year d)) @ ''-'' @ zero_pad 2 (str_nat (month d)) @ ''-'' @
     zero_pad 2 (str_nat (day d))"

text \<open>
  The \<open>expiry\<close> cell of an instrument row: a \<open>pandas.Timestamp\<close>, or any other
  object, which the code only reads through \<open>str\<close>.
\<close>

datatype expiry_value = ExpiryTimestamp date | ExpiryOther string

record instrument_row =
  row_instrument_token :: int
  row_tradingsymbol :: string
  row_expiry :: expiry_value
  row_strike :: real
  row_instrument_type :: string
  row_lot_size :: "int option"

text \<open>The metadata dictionary that \<open>build_universe\<close> stores for one row of the options frame.\<close>

definition contract_of :: "string \<Rightarrow> instrument_row \<Rightarrow> contract_meta" where
  "contract_of und r =
     (let expiry_str = (case row_expiry r of ExpiryTimestamp d \<Rightarrow> strftime_iso d | ExpiryOther s \<Rightarrow> s);
          expiry_ymd = (case row_expiry r of
                          ExpiryTimestamp d \<Rightarrow> strftime_ymd d
                        | ExpiryOther s \<Rightarrow> filter (\<lambda>c. c \<noteq> CHR ''-'') s);
          opt_type = row_instrument_type r
      in \<lparr>meta_instrument_token = Some (row_instrument_token r),
          meta_tradingsymbol = Some (row_tradingsymbol r),
          meta_underlying = Some und,
          meta_expiry = Some expiry_str,
          meta_expiry_yyyymmdd = Some expiry_ymd,
          meta_strike = Some (row_strike r),
          meta_option_type = Some opt_type,
          meta_option_type_short = Some (if opt_type = ''CE'' then ''C'' else ''P''),
          meta_instrument_id =
            Some (und @ ''_'' @ expiry_ymd @ ''_'' @ str_int (int_of_float (row_strike r)) @ opt_type),
          meta_lot_size = Some (case row_lot_size r of None \<Rightarrow> 1 | Some l \<Rightarrow> l)\<rparr>)"

text \<open>\<open>d[k] = v\<close> on an insertion-ordered dictionary: a known key keeps its place.\<close>

fun dict_set :: "('k \<times> 'v) list \<Rightarrow> 'k \<Rightarrow> 'v \<Rightarrow> ('k \<times> 'v) list" where
  "dict_set [] k v = [(k, v)]"
| "dict_set ((k', v') # kvs) k v =
     (if k' = k then (k, v) # kvs else (k', v') # dict_set kvs k v)"

text \<open>The loop \<open>for _, row in options_df.iterrows()\<close> that adds the rows to the universe.\<close>

fun add_options ::
  "string \<Rightarrow> instrument_row list \<Rightarrow> (int \<times> contract_meta) list \<Rightarrow> (int \<times> contract_meta) list"
where
  "add_options und [] universe = universe"
| "add_options und (r # rs) universe =
     add_options und rs (dict_set universe (row_instrument_token r) (contract_of und r))"

subsection \<open>The end-to-end scenario\<close>

text \<open>
  Universe: token 111 is the NIFTY 24000 CE, token 222 the NIFTY 24000 PE, of one expiry.
  The tick cache holds token 111 only: last price 120.5, one bid level (150, 100), one
  ask level (0, 0). The NIFTY spot is 24010. What the scenario leaves open (trading
  symbols, expiry, lot size, venue label, timezone) is a parameter.
\<close>

definition scenario_universe ::
  "string \<Rightarrow> string \<Rightarrow> expiry_value \<Rightarrow> int option \<Rightarrow> (int \<times> contract_meta) list" where
  "scenario_universe sym_ce sym_pe e lot =
     add_options ''NIFTY''
       [\<lparr>row_instrument_token = 111, row_tradingsymbol = sym_ce, row_expiry = e,
          row_strike = 24000, row_instrument_type = ''CE'', row_lot_size = lot\<rparr>,
        \<lparr>row_instrument_token = 222, row_tradingsymbol = sym_pe, row_expiry = e,
          row_strike = 24000, row_instrument_type = ''PE'', row_lot_size = lot\<rparr>]
       []"

definition scenario_ticks :: "int \<rightharpoonup> tick" where
  "scenario_ticks =
     Map.empty(111 \<mapsto>
       \<lparr>instrument_token = Some 111, last_price = Some (241 / 2), last_quantity = None,
        exchange_timestamp = None, timestamp = None,
        tick_depth = Some \<lparr>buy = Some [\<lparr>price = Some 150, quantity = Some 100\<rparr>],
                            sell = Some [\<lparr>price = Some 0, quantity = Some 0\<rparr>]\<rparr>\<rparr>)"

definition scenario_builder :: "string \<Rightarrow> (int \<Rightarrow> int) \<Rightarrow> snapshot_builder" where
  "scenario_builder label tz =
     set_spot_price \<lparr>venue_label = label, tz_offset = tz, spot_prices = Map.empty\<rparr> ''NIFTY'' 24010"

definition scenario_rows ::
  "string \<Rightarrow> (int \<Rightarrow> int) \<Rightarrow> (nat \<Rightarrow> int) \<Rightarrow> string \<Rightarrow> string \<Rightarrow> expiry_value \<Rightarrow> int option \<Rightarrow>
   int option \<Rightarrow> row list" where
  "scenario_rows label tz clock sym_ce sym_pe e lot ts_micros =
     build_snapshot (scenario_builder label tz) clock scenario_ticks
       (scenario_universe sym_ce sym_pe e lot) ts_micros"

section \<open>Feed orchestrator (ticker\_stream.py)\<close>

definition MAX_TOKENS_PER_CONNECTION :: nat where
  "MAX_TOKENS_PER_CONNECTION = 3000"

definition MAX_CONNECTIONS :: nat where
  "MAX_CONNECTIONS = 3"

record ticker_stream =
  api_key :: string
  access_token :: string
  reconnect :: bool
  reconnect_max_tries :: int
  reconnect_max_delay :: int
  subscribed_tokens :: "int list"
  latest_ticks :: "int \<rightharpoonup> tick"
  running :: bool

text \<open>The constructor of \<open>TickerStream\<close>, and its \<open>set_tokens\<close>.\<close>

definition new_ticker_stream :: "string \<Rightarrow> string \<Rightarrow> bool \<Rightarrow> int \<Rightarrow> int \<Rightarrow> ticker_stream" where
  "new_ticker_stream key tok rc tries delay =
     \<lparr>api_key = key, access_token = tok, reconnect = rc, reconnect_max_tries = tries,
      reconnect_max_delay = delay, subscribed_tokens = [], latest_ticks = Map.empty,
      running = False\<rparr>"

definition stream_set_tokens :: "ticker_stream \<Rightarrow> int list \<Rightarrow> ticker_stream" where
  "stream_set_tokens s tokens = s\<lparr>subscribed_tokens := tokens\<rparr>"

text \<open>
  \<open>MultiTickerStream\<close>. \<open>token_to_stream\<close> maps a token to its stream object; the
  model names a stream by its index in \<open>streams\<close>.
\<close>

record multi_ticker_stream =
  multi_api_key :: string
  multi_access_token :: string
  multi_reconnect :: bool
  multi_reconnect_max_tries :: int
  multi_reconnect_max_delay :: int
  streams :: "ticker_stream list"
  token_to_stream :: "int \<rightharpoonup> nat"
  combined_ticks :: "int \<rightharpoonup> tick"

text \<open>
  The loop \<open>for i in range(0, len(tokens), max_per_stream)\<close> that cuts the token list
  into chunks; \<open>tokens[i:i + max_per_stream]\<close> is \<open>take\<close> after \<open>drop\<close>.
\<close>

function split_chunks :: "int list \<Rightarrow> nat \<Rightarrow> int list list \<Rightarrow> int list list" where
  "split_chunks tokens i chunks =
     (if i < length tokens
      then split_chunks tokens (i + MAX_TOKENS_PER_CONNECTION)
             (chunks @ [take MAX_TOKENS_PER_CONNECTION (drop i tokens)])
      else chunks)"
  by pat_completeness auto
termination
  by (relation "measure (\<lambda>(tokens, i, chunks). length tokens - i)")
     (auto simp: MAX_TOKENS_PER_CONNECTION_def)

declare split_chunks.simps [simp del]

text \<open>The inner loop \<open>for token in chunk\<close> and the outer loop \<open>for chunk in chunks\<close>.\<close>

fun assign_tokens :: "(int \<rightharpoonup> nat) \<Rightarrow> int list \<Rightarrow> nat \<Rightarrow> (int \<rightharpoonup> nat)" where
  "assign_tokens m [] k = m"
| "assign_tokens m (token # rest) k = assign_tokens (m(token \<mapsto> k)) rest k"

fun create_streams :: "multi_ticker_stream \<Rightarrow> int list list \<Rightarrow> multi_ticker_stream" where
  "create_streams m [] = m"
| "create_streams m (chunk # rest) =
     (let stream = stream_set_tokens
            (new_ticker_stream (multi_api_key m) (multi_access_token m) (multi_reconnect m)
               (multi_reconnect_max_tries m) (multi_reconnect_max_delay m)) chunk;
          k = length (streams m)
      in create_streams
           (m\<lparr>streams := streams m @ [stream],
              token_to_stream := assign_tokens (token_to_stream m) chunk k\<rparr>) rest)"

definition set_tokens :: "multi_ticker_stream \<Rightarrow> int list \<Rightarrow> multi_ticker_stream" where
  "set_tokens m tokens =
     (let max_per_stream = MAX_TOKENS_PER_CONNECTION;
          max_total = max_per_stream * MAX_CONNECTIONS;
          kept = (if length tokens > max_total then take max_total tokens else tokens);
          chunks = split_chunks kept 0 []
      in create_streams (m\<lparr>streams := [], token_to_stream := Map.empty\<rparr>) chunks)"

section \<open>Sampling scheduler (run\_option\_chain.py)\<close>

text \<open>
  One iteration of the \<open>while\<close> loop of \<open>_snapshot_loop\<close>. \<open>take_snapshot\<close> and
  \<open>check_time_flush\<close> stand for the calls on the other components, acting on their
  state \<open>s\<close> (an exception of \<open>_take_snapshot\<close> is caught and logged, so the call
  always comes back). \<open>now\<close> is the reading of \<open>time.time()\<close> at the top of the
  iteration, \<open>now_after\<close> the reading used for the sleep. The result is: whether a
  snapshot fired, the new \<open>next_snapshot\<close>, the time slept, the new state.
\<close>

definition snapshot_iteration ::
  "('s \<Rightarrow> 's) \<Rightarrow> ('s \<Rightarrow> 's) \<Rightarrow> real \<Rightarrow> real \<Rightarrow> real \<Rightarrow> real \<times> 's \<Rightarrow> bool \<times> real \<times> real \<times> 's" where
  "snapshot_iteration take_snapshot check_time_flush interval now now_after st =
     (let next_snapshot = fst st;
          fire = (now \<ge> next_snapshot);
          s1 = (if fire then take_snapshot (snd st) else snd st);
          next_snapshot' = (if fire then now + interval else next_snapshot);
          s2 = check_time_flush s1;
          sleep_time = min (1 / 10) (next_snapshot' - now_after)
      in (fire, next_snapshot', (if sleep_time > 0 then sleep_time else 0), s2))"

text \<open>
  The loop, run on the clock readings of its successive iterations (it ends when the
  shutdown flag is seen, that is when the readings end). It returns, per iteration,
  whether a snapshot fired, and the final \<open>next_snapshot\<close> and state.
\<close>

fun snapshot_loop ::
  "('s \<Rightarrow> 's) \<Rightarrow> ('s \<Rightarrow> 's) \<Rightarrow> real \<Rightarrow> (real \<times> real) list \<Rightarrow> real \<times> 's \<Rightarrow> bool list \<times> real \<times> 's" where
  "snapshot_loop take_snapshot check_time_flush interval [] st = ([], st)"
| "snapshot_loop take_snapshot check_time_flush interval ((now, now_after) # rest) st =
     (case snapshot_iteration take_snapshot check_time_flush interval now now_after st of
        (fire, next_snapshot', slept, s') \<Rightarrow>
          (case snapshot_loop take_snapshot check_time_flush interval rest (next_snapshot', s') of
             (fires, final) \<Rightarrow> (fire # fires, final)))"

text \<open>\<open>_snapshot_loop\<close> itself: \<open>next_snapshot\<close> starts at the first reading plus the interval.\<close>

definition run_snapshot_loop ::
  "('s \<Rightarrow> 's) \<Rightarrow> ('s \<Rightarrow> 's) \<Rightarrow> real \<Rightarrow> real \<Rightarrow> (real \<times> real) list \<Rightarrow> 's \<Rightarrow> bool list \<times> real \<times> 's" where
  "run_snapshot_loop take_snapshot check_time_flush interval start readings s =
     snapshot_loop take_snapshot check_time_flush interval readings (start + interval, s)"

text \<open>A multi-stream orchestrator as its constructor leaves it.\<close>

definition example_multi_stream :: multi_ticker_stream where
  "example_multi_stream =
     \<lparr>multi_api_key = ''key'', multi_access_token = ''token'', multi_reconnect = True,
      multi_reconnect_max_tries = 50, multi_reconnect_max_delay = 30,
      streams = [], token_to_stream = Map.empty, combined_ticks = Map.empty\<rparr>"

section \<open>Rolling persistence layer (csv\_writer.py)\<close>

definition COLUMNS :: "string list" where
  "COLUMNS =
     [''ts'', ''venue'', ''underlying_symbol'', ''underlying_spot'', ''instrument_id'',
      ''option_symbol'', ''expiry_date'', ''strike'', ''option_type'', ''best_bid_px'',
      ''best_bid_sz'', ''best_ask_px'', ''best_ask_sz'', ''mid_px'', ''spread'',
      ''last_trade_px'', ''last_trade_sz'', ''bid_px_1'', ''bid_sz_1'', ''bid_px_2'',
      ''bid_sz_2'', ''bid_px_3'', ''bid_sz_3'', ''ask_px_1'', ''ask_sz_1'', ''ask_px_2'',
      ''ask_sz_2'', ''ask_px_3'', ''ask_sz_3'']"

text \<open>
  The world outside the writer. \<open>files\<close> maps a path to the rows of the file (its
  header included); \<open>today_date\<close> and \<open>now_micros\<close> are what \<open>date.today()\<close> and
  \<open>datetime.now()\<close> return, taken as constant during one call of the writer; the
  \<open>_fails\<close> flags say which file operation raises when it is tried; \<open>trace\<close> records
  the file operations in the order they happen.
\<close>

datatype io_op =
    OpOpen string
  | OpHeader string
  | OpWriteRows string "string list list"
  | OpWriteError string
  | OpClose string
  | OpRename string string
  | OpRenameError string string

record world =
  files :: "string \<rightharpoonup> string list list"
  today_date :: date
  now_micros :: int
  open_fails :: bool
  header_fails :: bool
  write_fails :: bool
  rename_fails :: bool
  trace :: "io_op list"

definition file_rows :: "world \<Rightarrow> string \<Rightarrow> string list list" where
  "file_rows W p = (case files W p of None \<Rightarrow> [] | Some rows \<Rightarrow> rows)"

fun is_write :: "io_op \<Rightarrow> bool" where
  "is_write (OpWriteRows p rows) = True"
| "is_write _ = False"

text \<open>The number of flushes that reached the file: the \<open>writerows\<close> calls that returned.\<close>

definition flush_count :: "world \<Rightarrow> nat" where
  "flush_count W = length (filter is_write (trace W))"

text \<open>
  The fields of \<open>CSVWriter\<close>. An open file handle, and the \<open>csv.writer\<close> on it, are
  named by the path the handle was opened on; \<open>None\<close> is Python's \<open>None\<close>. Times are
  in microseconds. The exceptions that leave the writer are values of \<open>io_error\<close>; the
  writer and the world are returned with them, as the call left them.
\<close>

record writer_state =
  output_dir :: string
  underlying :: string
  venue_token :: string
  flush_rows :: int
  flush_interval_seconds :: real
  buffer :: "string list list"
  current_file :: "string option"
  file_handle :: "string option"
  csv_writer :: "string option"
  start_date :: "date option"
  last_flush_time :: "int option"
  rows_written :: nat

datatype io_error = OpenError | HeaderError

type_synonym result = "io_error option \<times> writer_state \<times> world"

text \<open>\<open>str.upper\<close>, on ASCII letters.\<close>

definition upper_char :: "char \<Rightarrow> char" where
  "upper_char c =
     (case map_of (zip ''abcdefghijklmnopqrstuvwxyz'' ''ABCDEFGHIJKLMNOPQRSTUVWXYZ'') c of
        None \<Rightarrow> c
      | Some u \<Rightarrow> u)"

definition upper :: "string \<Rightarrow> string" where
  "upper s = map upper_char s"

text \<open>The constructor (the creation of the output directory is not modelled).\<close>

definition new_writer :: "string \<Rightarrow> string \<Rightarrow> string \<Rightarrow> int \<Rightarrow> real \<Rightarrow> writer_state" where
  "new_writer dir und ven n_rows secs =
     \<lparr>output_dir = dir, underlying = upper und, venue_token = ven, flush_rows = n_rows,
      flush_interval_seconds = secs, buffer = [], current_file = None, file_handle = None,
      csv_writer = None, start_date = None, last_flush_time = None, rows_written = 0\<rparr>"

definition get_filename :: "writer_state \<Rightarrow> date \<Rightarrow> date option \<Rightarrow> string" where
  "get_filename w start end_date =
     underlying w @ ''_'' @ venue_token w @ ''_OPTION_CHAIN_1S_'' @ strftime_ymd start @ ''_'' @
     strftime_ymd (case end_date of None \<Rightarrow> start | Some e \<Rightarrow> e) @ ''.csv''"

text \<open>\<open>self.output_dir / filename\<close>\<close>

definition file_path :: "writer_state \<Rightarrow> date \<Rightarrow> date option \<Rightarrow> string" where
  "file_path w start end_date = output_dir w @ ''/'' @ get_filename w start end_date"

text \<open>\<open>_close_file\<close>: an error of \<open>flush\<close> or \<open>close\<close> is caught and only logged.\<close>

definition close_file :: "writer_state \<Rightarrow> world \<Rightarrow> writer_state \<times> world" where
  "close_file w W =
     (case file_handle w of
        None \<Rightarrow> (w, W)
      | Some p \<Rightarrow> (w\<lparr>file_handle := None, csv_writer := None\<rparr>, W\<lparr>trace := trace W @ [OpClose p]\<rparr>))"

text \<open>
  \<open>_open_file\<close>: the file is opened for appending (created empty when it is not there);
  the header is written only when the file did not exist before. \<open>open\<close> and the
  writing of the header are outside any \<open>try\<close>: their exception leaves the writer.
\<close>

definition open_file :: "date \<Rightarrow> writer_state \<Rightarrow> world \<Rightarrow> result" where
  "open_file for_date w W =
     (case close_file w W of
        (w1, W1) \<Rightarrow>
          (let path = file_path w1 for_date None;
               w2 = w1\<lparr>start_date := Some for_date, current_file := Some path\<rparr>;
               file_exists = (files W1 path \<noteq> None)
           in if open_fails W1 then (Some OpenError, w2, W1)
              else
                (let W2 = W1\<lparr>files := (files W1)(path \<mapsto> file_rows W1 path),
                              trace := trace W1 @ [OpOpen path]\<rparr>;
                     w3 = w2\<lparr>file_handle := Some path, csv_writer := Some path\<rparr>
                 in if \<not> file_exists
                    then (if header_fails W2 then (Some HeaderError, w3, W2)
                          else (None, w3\<lparr>last_flush_time := Some (now_micros W2)\<rparr>,
                                W2\<lparr>files := (files W2)(path \<mapsto> file_rows W2 path @ [COLUMNS]),
                                   trace := trace W2 @ [OpHeader path]\<rparr>))
                    else (None, w3\<lparr>last_flush_time := Some (now_micros W2)\<rparr>, W2))))"

text \<open>
  \<open>_rename_with_end_date\<close>: the new name keeps the start date and takes today's date as
  its end date; the rename happens only when the current file exists and the new name
  does not. An error of the rename is caught and only logged.
\<close>

definition rename_with_end_date :: "writer_state \<Rightarrow> world \<Rightarrow> writer_state \<times> world" where
  "rename_with_end_date w W =
     (case (current_file w, start_date w) of
        (Some cur, Some sd) \<Rightarrow>
          (let today = today_date W in
           if today \<noteq> sd
           then
             (let new_path = file_path w sd (Some today) in
              case close_file w W of
                (w1, W1) \<Rightarrow>
                  if files W1 cur \<noteq> None \<and> files W1 new_path = None
                  then (if rename_fails W1
                        then (w1, W1\<lparr>trace := trace W1 @ [OpRenameError cur new_path]\<rparr>)
                        else (w1\<lparr>current_file := Some new_path\<rparr>,
                              W1\<lparr>files := ((files W1)(cur := None))(new_path := files W1 cur),
                                 trace := trace W1 @ [OpRename cur new_path]\<rparr>))
                  else (w1, W1))
           else (w, W))
      | _ \<Rightarrow> (w, W))"

definition check_rollover :: "writer_state \<Rightarrow> world \<Rightarrow> result" where
  "check_rollover w W =
     (let today = today_date W in
      case start_date w of
        Some sd \<Rightarrow>
          (if sd \<noteq> today
           then (case rename_with_end_date w W of (w1, W1) \<Rightarrow> open_file today w1 W1)
           else (None, w, W))
      | None \<Rightarrow> (None, w, W))"

text \<open>
  \<open>_do_flush\<close>. The rollover check and the opening of the file are outside the
  \<open>try\<close>; the writing is inside it, and the \<open>finally\<close> clause empties the buffer
  and sets the time of the last flush whether the writing raised or not. A failed
  writing is taken to leave the file as it was.
\<close>

definition do_flush :: "writer_state \<Rightarrow> world \<Rightarrow> result" where
  "do_flush w W =
     (if buffer w = [] then (None, w, W)
      else
        (case check_rollover w W of
           (Some e, w1, W1) \<Rightarrow> (Some e, w1, W1)
         | (None, w1, W1) \<Rightarrow>
             (case (if csv_writer w1 = None then open_file (today_date W1) w1 W1 else (None, w1, W1)) of
                (Some e, w2, W2) \<Rightarrow> (Some e, w2, W2)
              | (None, w2, W2) \<Rightarrow>
                  (case csv_writer w2 of
                     Some p \<Rightarrow>
                       if write_fails W2
                       then (None,
                             w2\<lparr>buffer := [], last_flush_time := Some (now_micros W2)\<rparr>,
                             W2\<lparr>trace := trace W2 @ [OpWriteError p]\<rparr>)
                       else (None,
                             w2\<lparr>rows_written := rows_written w2 + length (buffer w2),
                                buffer := [], last_flush_time := Some (now_micros W2)\<rparr>,
                             W2\<lparr>files := (files W2)(p \<mapsto> file_rows W2 p @ buffer w2),
                                trace := trace W2 @ [OpWriteRows p (buffer w2)]\<rparr>)
                   | None \<Rightarrow>
                       (None,
                        w2\<lparr>buffer := [], last_flush_time := Some (now_micros W2)\<rparr>,
                        W2)))))"

text \<open>
  \<open>write_row\<close> and \<open>write_rows\<close>. \<open>fmt\<close> is the formatting of one row dictionary,
  \<open>[format_csv_value(row.get(col)) for col in COLUMNS]\<close>; how Python renders a float
  is outside the model, so the formatting is a parameter.
\<close>

definition write_row :: "('r \<Rightarrow> string list) \<Rightarrow> 'r \<Rightarrow> writer_state \<Rightarrow> world \<Rightarrow> result" where
  "write_row fmt r w W =
     (let w1 = w\<lparr>buffer := buffer w @ [fmt r]\<rparr>
      in if int (length (buffer w1)) \<ge> flush_rows w1 then do_flush w1 W else (None, w1, W))"

definition write_rows :: "('r \<Rightarrow> string list) \<Rightarrow> 'r list \<Rightarrow> writer_state \<Rightarrow> world \<Rightarrow> result" where
  "write_rows fmt rs w W =
     (let w1 = w\<lparr>buffer := buffer w @ map fmt rs\<rparr>
      in if int (length (buffer w1)) \<ge> flush_rows w1 then do_flush w1 W else (None, w1, W))"


definition check_time_flush :: "writer_state \<Rightarrow> world \<Rightarrow> result" where
  "check_time_flush w W =
     (case last_flush_time w of
        None \<Rightarrow> (None, w, W)
      | Some t \<Rightarrow>
          (let elapsed = real_of_int (now_micros W - t) / 1000000
           in if elapsed \<ge> flush_interval_seconds w
              then (if buffer w \<noteq> [] then do_flush w W else (None, w, W))
              else (None, w, W)))"

definition close :: "writer_state \<Rightarrow> world \<Rightarrow> result" where
  "close w W =
     (case (if buffer w \<noteq> [] then do_flush w W else (None, w, W)) of
        (Some e, w1, W1) \<Rightarrow> (Some e, w1, W1)
      | (None, w1, W1) \<Rightarrow> (case close_file w1 W1 of (w2, W2) \<Rightarrow> (None, w2, W2)))"

text \<open>A caller that writes the rows of a list one by one, stopping at an exception.\<close>

fun write_each :: "('r \<Rightarrow> string list) \<Rightarrow> 'r list \<Rightarrow> writer_state \<Rightarrow> world \<Rightarrow> result" where
  "write_each fmt [] w W = (None, w, W)"
| "write_each fmt (r # rs) w W =
     (case write_row fmt r w W of
        (Some e, w1, W1) \<Rightarrow> (Some e, w1, W1)
      | (None, w1, W1) \<Rightarrow> write_each fmt rs w1 W1)"

text \<open>
  The dates Python's \<open>date\<close> can hold (the length of each month is not modelled), and
  the reading of a decimal string, used to tell file names apart.
\<close>

definition valid_date :: "date \<Rightarrow> bool" where
  "valid_date d =
     (1 \<le> year d \<and> year d \<le> 9999 \<and> 1 \<le> month d \<and> month d \<le> 12 \<and> 1 \<le> day d \<and> day d \<le> 31)"

definition digit_val :: "char \<Rightarrow> nat" where
  "digit_val c = (case map_of (zip ''0123456789'' [0, 1, 2, 3, 4, 5, 6, 7, 8, 9]) c of
                    None \<Rightarrow> 0 | Some v \<Rightarrow> v)"

definition nat_of_str :: "string \<Rightarrow> nat" where
  "nat_of_str s = foldl (\<lambda>a c. 10 * a + digit_val c) 0 s"

text \<open>Running a second call on the state a first call returned, unless that one raised.\<close>

definition and_then :: "result \<Rightarrow> (writer_state \<Rightarrow> world \<Rightarrow> result) \<Rightarrow> result" where
  "and_then res f = (case res of (Some e, w, W) \<Rightarrow> (Some e, w, W) | (None, w, W) \<Rightarrow> f w W)"

text \<open>
  What a call leaves alone: the clock and the failure flags of the world, and the
  configuration, the buffer and the row count of the writer.
\<close>

definition same_clock :: "world \<Rightarrow> world \<Rightarrow> bool" where
  "same_clock W W' =
     (today_date W' = today_date W \<and> now_micros W' = now_micros W \<and>
      open_fails W' = open_fails W \<and> header_fails W' = header_fails W \<and>
      write_fails W' = write_fails W \<and> rename_fails W' = rename_fails W)"

definition same_config :: "writer_state \<Rightarrow> writer_state \<Rightarrow> bool" where
  "same_config w w' =
     (output_dir w' = output_dir w \<and> underlying w' = underlying w \<and>
      venue_token w' = venue_token w \<and> flush_rows w' = flush_rows w \<and>
      flush_interval_seconds w' = flush_interval_seconds w)"

text \<open>
  Example states: two consecutive days, a world with no file and no failure, a writer as
  the constructor leaves it, and a writer that opened its file on the first day and holds
  one buffered row.
\<close>

definition day_one :: date where
  "day_one = \<lparr>year = 2024, month = 1, day = 15\<rparr>"

definition day_two :: date where
  "day_two = \<lparr>year = 2024, month = 1, day = 16\<rparr>"

definition calm_world :: world where
  "calm_world =
     \<lparr>files = Map.empty, today_date = day_one, now_micros = 0, open_fails = False,
      header_fails = False, write_fails = False, rename_fails = False, trace = []\<rparr>"

definition fresh_writer :: writer_state where
  "fresh_writer = new_writer ''out'' ''nifty'' ''NSEFO'' 500 1"

definition day_one_file :: string where
  "day_one_file = ''out/NIFTY_NSEFO_OPTION_CHAIN_1S_20240115_20240115.csv''"

definition opened_writer :: writer_state where
  "opened_writer =
     \<lparr>output_dir = ''out'', underlying = ''NIFTY'', venue_token = ''NSEFO'', flush_rows = 2,
      flush_interval_seconds = 1, buffer = [[''r2'']], current_file = Some day_one_file,
      file_handle = Some day_one_file, csv_writer = Some day_one_file,
      start_date = Some day_one, last_flush_time = Some 0, rows_written = 2\<rparr>"

definition opened_world :: world where
  "opened_world =
     calm_world\<lparr>files := Map.empty(day_one_file \<mapsto> [COLUMNS, [''r0''], [''r1'']]),
                trace := [OpOpen day_one_file, OpHeader day_one_file,
                          OpWriteRows day_one_file [[''r0''], [''r1'']]]\<rparr>"

definition renamed_file :: string where
  "renamed_file = ''out/NIFTY_NSEFO_OPTION_CHAIN_1S_20240115_20240116.csv''"

definition day_two_file :: string where
  "day_two_file = ''out/NIFTY_NSEFO_OPTION_CHAIN_1S_20240116_20240116.csv''"

section \<open>Depth extraction\<close>

lemma extract_depth_loop_length:
  "length (extract_depth_loop d i n result) = length result + n"
  by (induction n arbitrary: i result) simp_all

lemma extract_depth_loop_old:
  "j < length result \<Longrightarrow> extract_depth_loop d i n result ! j = result ! j"
  by (induction n arbitrary: i result) (simp_all add: nth_append)

lemma extract_depth_loop_new:
  "j < n \<Longrightarrow>
   extract_depth_loop d i n result ! (length result + j) =
     (if i + j < length d
      then (if price (d ! (i + j)) = Some 0 then (None, None)
            else (price (d ! (i + j)), quantity (d ! (i + j))))
      else (None, None))"
proof (induction n arbitrary: i j result)
  case 0
  then show ?case by simp
next
  case (Suc n)
  show ?case
  proof (cases j)
    case 0
    then show ?thesis
      using extract_depth_loop_old [of "length result" _ d "Suc i" n]
      by simp
  next
    case (Suc j')
    with Suc.prems have "j' < n" by simp
    from Suc.IH [OF this, of "Suc i"
        "result @ [if i < length d
          then (if price (d ! i) = Some 0 then (None, None) else (price (d ! i), quantity (d ! i)))
          else (None, None)]"]
    show ?thesis using Suc by simp
  qed
qed

lemma extract_depth_nth:
  "j < levels \<Longrightarrow>
   extract_depth t side levels ! j =
     (if j < length (depth_side t side)
      then (if price (depth_side t side ! j) = Some 0 then (None, None)
            else (price (depth_side t side ! j), quantity (depth_side t side ! j)))
      else (None, None))"
  using extract_depth_loop_new [of j levels "depth_side t side" 0 "[]"]
  by (simp add: extract_depth_def)

lemma extract_depth_length: "length (extract_depth t side levels) = levels"
  by (simp add: extract_depth_def extract_depth_loop_length)


text \<open>
  Claim C5. For every tick and every side, depth extraction (with the three levels that
  \<open>build_row\<close> asks for) returns exactly three (price, quantity) pairs; a level whose
  price is exactly 0 becomes (null, null) whatever its quantity is; a level beyond the
  available depth is (null, null); any other level is passed through unchanged.
\<close>

theorem extract_depth_three_pairs:
  "length (extract_depth t side 3) = 3 \<and>
   (\<forall>i<3. i < length (depth_side t side) \<longrightarrow> price (depth_side t side ! i) = Some 0 \<longrightarrow>
      extract_depth t side 3 ! i = (None, None)) \<and>
   (\<forall>i<3. length (depth_side t side) \<le> i \<longrightarrow> extract_depth t side 3 ! i = (None, None)) \<and>
   (\<forall>i<3. i < length (depth_side t side) \<longrightarrow> price (depth_side t side ! i) \<noteq> Some 0 \<longrightarrow>
      extract_depth t side 3 ! i =
        (price (depth_side t side ! i), quantity (depth_side t side ! i)))"
  by (simp add: extract_depth_length extract_depth_nth)

theorem extract_depth_three_pairs_witness:
  "depth_side depth_example_tick ''buy'' =
     [\<lparr>price = Some 0, quantity = Some 55\<rparr>, \<lparr>price = Some 150, quantity = Some 100\<rparr>] \<and>
   length (extract_depth depth_example_tick ''buy'' 3) = 3 \<and>
   extract_depth depth_example_tick ''buy'' 3 ! 0 = (None, None) \<and>
   extract_depth depth_example_tick ''buy'' 3 ! 1 = (Some 150, Some 100) \<and>
   extract_depth depth_example_tick ''buy'' 3 ! 2 = (None, None)"
proof -
  have d: "depth_side depth_example_tick ''buy'' =
     [\<lparr>price = Some 0, quantity = Some 55\<rparr>, \<lparr>price = Some 150, quantity = Some 100\<rparr>]"
    by (simp add: depth_side_def depth_example_tick_def)
  from extract_depth_three_pairs [of depth_example_tick "''buy''"]
  have len: "length (extract_depth depth_example_tick ''buy'' 3) = 3"
    and zero: "\<forall>i<3. i < length (depth_side depth_example_tick ''buy'') \<longrightarrow>
        price (depth_side depth_example_tick ''buy'' ! i) = Some 0 \<longrightarrow>
        extract_depth depth_example_tick ''buy'' 3 ! i = (None, None)"
    and beyond: "\<forall>i<3. length (depth_side depth_example_tick ''buy'') \<le> i \<longrightarrow>
        extract_depth depth_example_tick ''buy'' 3 ! i = (None, None)"
    and other: "\<forall>i<3. i < length (depth_side depth_example_tick ''buy'') \<longrightarrow>
        price (depth_side depth_example_tick ''buy'' ! i) \<noteq> Some 0 \<longrightarrow>
        extract_depth depth_example_tick ''buy'' 3 ! i =
          (price (depth_side depth_example_tick ''buy'' ! i),
           quantity (depth_side depth_example_tick ''buy'' ! i))"
    by blast+
  from zero [rule_format, of 0] have r0: "extract_depth depth_example_tick ''buy'' 3 ! 0 = (None, None)"
    by (simp add: d)
  from other [rule_format, of 1]
  have r1: "extract_depth depth_example_tick ''buy'' 3 ! 1 = (Some 150, Some 100)"
    by (simp add: d)
  from beyond [rule_format, of 2] have r2: "extract_depth depth_example_tick ''buy'' 3 ! 2 = (None, None)"
    by (simp add: d)
  from d len r0 r1 r2 show ?thesis by blast
qed

section \<open>Mid price and spread\<close>

lemma compute_mid_spread_cases:
  "compute_mid_spread bid ask =
     (if bid \<noteq> None \<and> ask \<noteq> None
      then (Some ((the bid + the ask) / 2), Some (the ask - the bid))
      else (None, None))"
  by (cases bid; cases ask) (simp_all add: compute_mid_spread_def)

lemma build_row_mid_px:
  "mid_px (build_row b now t meta ts_micros) =
     fst (compute_mid_spread (best_bid_px (build_row b now t meta ts_micros))
                             (best_ask_px (build_row b now t meta ts_micros)))"
  by (simp add: build_row_def Let_def)

lemma build_row_spread:
  "spread (build_row b now t meta ts_micros) =
     snd (compute_mid_spread (best_bid_px (build_row b now t meta ts_micros))
                             (best_ask_px (build_row b now t meta ts_micros)))"
  by (simp add: build_row_def Let_def)

text \<open>
  Claim C6. In every row that \<open>build_row\<close> builds, \<open>mid_px\<close> and \<open>spread\<close> are both
  non-null exactly when \<open>best_bid_px\<close> and \<open>best_ask_px\<close> are both non-null; then
  \<open>mid_px = (bid + ask) / 2\<close> and \<open>spread = ask - bid\<close>; otherwise both are null,
  so one is never computed without the other.
\<close>

theorem build_row_mid_spread:
  "(let r = build_row b now t meta ts_micros in
     ((mid_px r \<noteq> None \<and> spread r \<noteq> None) = (best_bid_px r \<noteq> None \<and> best_ask_px r \<noteq> None)) \<and>
     ((mid_px r = None) = (spread r = None)) \<and>
     (case (best_bid_px r, best_ask_px r) of
        (Some bid, Some ask) \<Rightarrow> mid_px r = Some ((bid + ask) / 2) \<and> spread r = Some (ask - bid)
      | _ \<Rightarrow> mid_px r = None \<and> spread r = None))"
proof -
  define r where "r = build_row b now t meta ts_micros"
  have m: "mid_px r = fst (compute_mid_spread (best_bid_px r) (best_ask_px r))"
    unfolding r_def by (rule build_row_mid_px)
  have s: "spread r = snd (compute_mid_spread (best_bid_px r) (best_ask_px r))"
    unfolding r_def by (rule build_row_spread)
  have "((mid_px r \<noteq> None \<and> spread r \<noteq> None) = (best_bid_px r \<noteq> None \<and> best_ask_px r \<noteq> None)) \<and>
     ((mid_px r = None) = (spread r = None)) \<and>
     (case (best_bid_px r, best_ask_px r) of
        (Some bid, Some ask) \<Rightarrow> mid_px r = Some ((bid + ask) / 2) \<and> spread r = Some (ask - bid)
      | _ \<Rightarrow> mid_px r = None \<and> spread r = None)"
    by (cases "best_bid_px r"; cases "best_ask_px r") (simp_all add: m s compute_mid_spread_def)
  then show ?thesis unfolding r_def Let_def .
qed

theorem build_row_mid_spread_witness:
  "(let r = build_row mid_example_builder 0 mid_example_tick mid_example_meta (Some 7) in
      best_bid_px r = Some 150 \<and> best_ask_px r = Some 152 \<and>
      mid_px r = Some 151 \<and> spread r = Some 2) \<and>
   (let r = build_row mid_example_builder 0 depth_example_tick mid_example_meta (Some 7) in
      best_bid_px r = None \<and> best_ask_px r = None \<and> mid_px r = None \<and> spread r = None)"
proof -
  have b1: "extract_depth mid_example_tick ''buy'' 3 = [(Some 150, Some 100), (None, None), (None, None)]"
    by (simp add: extract_depth_def depth_side_def mid_example_tick_def empty_tick_def numeral_3_eq_3)
  have a1: "extract_depth mid_example_tick ''sell'' 3 = [(Some 152, Some 75), (None, None), (None, None)]"
    by (simp add: extract_depth_def depth_side_def mid_example_tick_def empty_tick_def numeral_3_eq_3)
  have b2: "extract_depth depth_example_tick ''buy'' 3 = [(None, None), (Some 150, Some 100), (None, None)]"
    by (simp add: extract_depth_def depth_side_def depth_example_tick_def empty_tick_def numeral_3_eq_3)
  have a2: "extract_depth depth_example_tick ''sell'' 3 = [(None, None), (None, None), (None, None)]"
    by (simp add: extract_depth_def depth_side_def depth_example_tick_def empty_tick_def numeral_3_eq_3)
  have bid1: "best_bid_px (build_row mid_example_builder 0 mid_example_tick mid_example_meta (Some 7)) = Some 150"
    by (simp add: build_row_def Let_def b1)
  have ask1: "best_ask_px (build_row mid_example_builder 0 mid_example_tick mid_example_meta (Some 7)) = Some 152"
    by (simp add: build_row_def Let_def a1)
  have bid2: "best_bid_px (build_row mid_example_builder 0 depth_example_tick mid_example_meta (Some 7)) = None"
    by (simp add: build_row_def Let_def b2)
  have ask2: "best_ask_px (build_row mid_example_builder 0 depth_example_tick mid_example_meta (Some 7)) = None"
    by (simp add: build_row_def Let_def a2)
  from build_row_mid_spread [of mid_example_builder 0 mid_example_tick mid_example_meta "Some 7"]
    build_row_mid_spread [of mid_example_builder 0 depth_example_tick mid_example_meta "Some 7"]
  show ?thesis
    by (simp add: Let_def bid1 ask1 bid2 ask2)
qed

section \<open>Snapshots\<close>

lemma build_snapshot_loop_length:
  "length (build_snapshot_loop b clock ticks universe ts_val k rows) = length rows + length universe"
  by (induction b clock ticks universe ts_val k rows rule: build_snapshot_loop.induct) simp_all

lemma build_snapshot_loop_old:
  "j < length rows \<Longrightarrow> build_snapshot_loop b clock ticks universe ts_val k rows ! j = rows ! j"
  by (induction b clock ticks universe ts_val k rows rule: build_snapshot_loop.induct)
     (simp_all add: nth_append)

lemma build_snapshot_loop_new:
  "i < length universe \<Longrightarrow>
   build_snapshot_loop b clock ticks universe ts_val k rows ! (length rows + i) =
     build_row b (clock (Suc (k + i)))
       (case ticks (fst (universe ! i)) of None \<Rightarrow> empty_tick | Some t \<Rightarrow> t)
       (snd (universe ! i)) (Some ts_val)"
proof (induction b clock ticks universe ts_val k rows arbitrary: i rule: build_snapshot_loop.induct)
  case (1 b clock ticks ts_val k rows)
  then show ?case by simp
next
  case (2 b clock ticks token meta rest ts_val k rows)
  show ?case
  proof (cases i)
    case 0
    then show ?thesis
      using build_snapshot_loop_old [of "length rows" _ b clock ticks rest ts_val "Suc k"]
      by simp
  next
    case (Suc i')
    with "2.prems" have "i' < length rest" by simp
    from "2.IH" [OF this] show ?thesis using Suc by simp
  qed
qed

lemma build_row_ts_given: "ts (build_row b now t meta (Some v)) = v"
  by (simp add: build_row_def Let_def)

text \<open>
  Claim C4. For every tick cache (the empty one included) and every universe of size M,
  \<open>build_snapshot\<close> returns exactly M rows, and the i-th row is the row built from the
  i-th entry of the universe in its iteration order (from that token's cached tick, or
  from the empty tick when it has none).
\<close>

theorem build_snapshot_one_row_per_token:
  "length (build_snapshot b clock ticks universe ts_micros) = length universe \<and>
   length (build_snapshot b clock Map.empty universe ts_micros) = length universe \<and>
   (\<forall>i<length universe.
      build_snapshot b clock ticks universe ts_micros ! i =
        build_row b (clock (Suc i))
          (case ticks (fst (universe ! i)) of None \<Rightarrow> empty_tick | Some t \<Rightarrow> t)
          (snd (universe ! i))
          (Some (case ts_micros of None \<Rightarrow> ts_to_micros b (clock 0) None | Some v \<Rightarrow> v)))"
  using build_snapshot_loop_new [of _ universe b clock ticks _ 0 "[]"]
  by (simp add: build_snapshot_def build_snapshot_loop_length)

theorem build_snapshot_one_row_per_token_witness:
  "length (build_snapshot mid_example_builder (\<lambda>k. 5 + int k) Map.empty
      [(111, mid_example_meta), (222, mid_example_meta\<lparr>meta_option_type_short := Some ''P''\<rparr>)]
      None) = 2 \<and>
   option_type (build_snapshot mid_example_builder (\<lambda>k. 5 + int k) Map.empty
      [(111, mid_example_meta), (222, mid_example_meta\<lparr>meta_option_type_short := Some ''P''\<rparr>)]
      None ! 1) = ''P''"
proof -
  let ?u = "[(111::int, mid_example_meta),
             (222, mid_example_meta\<lparr>meta_option_type_short := Some ''P''\<rparr>)]"
  note inst = build_snapshot_one_row_per_token [of mid_example_builder "\<lambda>k. 5 + int k" Map.empty ?u None]
  from inst have len: "length (build_snapshot mid_example_builder (\<lambda>k. 5 + int k) Map.empty ?u None) = 2"
    by simp
  from inst have "build_snapshot mid_example_builder (\<lambda>k. 5 + int k) Map.empty ?u None ! 1 =
      build_row mid_example_builder 7 empty_tick
        (mid_example_meta\<lparr>meta_option_type_short := Some ''P''\<rparr>) (Some 5)"
    by (simp add: ts_to_micros_def)
  then have "option_type (build_snapshot mid_example_builder (\<lambda>k. 5 + int k) Map.empty ?u None ! 1) = ''P''"
    by (simp add: build_row_def Let_def str_or_empty_def)
  with len show ?thesis by simp
qed

text \<open>
  Claim C10. Within one \<open>build_snapshot\<close> call every returned row carries the same
  \<open>ts\<close>: the \<open>ts_micros\<close> argument when it is given, otherwise the one reading of the
  wall clock taken at the start of the call (reading 0). Neither the cached ticks (their
  exchange timestamps included) nor any later reading of the clock has an influence.
\<close>

theorem build_snapshot_single_ts:
  "\<forall>r \<in> set (build_snapshot b clock ticks universe ts_micros).
     ts r = (case ts_micros of None \<Rightarrow> clock 0 | Some v \<Rightarrow> v)"
proof
  fix r
  assume "r \<in> set (build_snapshot b clock ticks universe ts_micros)"
  then obtain i where i: "i < length (build_snapshot b clock ticks universe ts_micros)"
    and r: "r = build_snapshot b clock ticks universe ts_micros ! i"
    by (auto simp: in_set_conv_nth)
  from i have "i < length universe"
    by (simp add: build_snapshot_def build_snapshot_loop_length)
  from build_snapshot_loop_new [OF this, of b clock ticks _ 0 "[]"] r
  have "ts r = (case ts_micros of None \<Rightarrow> ts_to_micros b (clock 0) None | Some v \<Rightarrow> v)"
    by (simp add: build_snapshot_def build_row_ts_given)
  then show "ts r = (case ts_micros of None \<Rightarrow> clock 0 | Some v \<Rightarrow> v)"
    by (simp add: ts_to_micros_def split: option.splits)
qed

theorem build_snapshot_single_ts_witness:
  "build_snapshot mid_example_builder (\<lambda>k. 5 + int k) (Map.empty(111 \<mapsto> stamped_example_tick))
      [(111, mid_example_meta)] None \<noteq> [] \<and>
   exchange_timestamp stamped_example_tick = Some (Aware 1700000000000000) \<and>
   ts (hd (build_snapshot mid_example_builder (\<lambda>k. 5 + int k) (Map.empty(111 \<mapsto> stamped_example_tick))
      [(111, mid_example_meta)] None)) = 5 \<and>
   ts (hd (build_snapshot mid_example_builder (\<lambda>k. 5 + int k) (Map.empty(111 \<mapsto> stamped_example_tick))
      [(111, mid_example_meta)] (Some 42))) = 42"
proof -
  let ?s = "\<lambda>a. build_snapshot mid_example_builder (\<lambda>k. 5 + int k)
      (Map.empty(111 \<mapsto> stamped_example_tick)) [(111, mid_example_meta)] a"
  have ne: "?s a \<noteq> []" for a
    by (simp add: build_snapshot_def)
  then have "hd (?s a) \<in> set (?s a)" for a
    by simp
  with build_snapshot_single_ts [of mid_example_builder "\<lambda>k. 5 + int k"
      "Map.empty(111 \<mapsto> stamped_example_tick)" "[(111, mid_example_meta)]"]
  have "ts (hd (?s a)) = (case a of None \<Rightarrow> 5 + int 0 | Some v \<Rightarrow> v)" for a
    by blast
  from this [of None] this [of "Some 42"] ne [of None] show ?thesis
    by (simp add: stamped_example_tick_def)
qed

section \<open>The end-to-end scenario\<close>

lemma scenario_universe_value:
  "scenario_universe sym_ce sym_pe e lot =
   [(111, contract_of ''NIFTY''
        \<lparr>row_instrument_token = 111, row_tradingsymbol = sym_ce, row_expiry = e,
          row_strike = 24000, row_instrument_type = ''CE'', row_lot_size = lot\<rparr>),
    (222, contract_of ''NIFTY''
        \<lparr>row_instrument_token = 222, row_tradingsymbol = sym_pe, row_expiry = e,
          row_strike = 24000, row_instrument_type = ''PE'', row_lot_size = lot\<rparr>)]"
  by (simp add: scenario_universe_def)

lemma str_int_24000: "str_int (int_of_float 24000) = ''24000''"
  by (simp add: str_int_def int_of_float_def str_nat.simps digit_char_def)

lemma scenario_rows_value:
  "scenario_rows label tz clock sym_ce sym_pe e lot ts_micros =
   [\<lparr>ts = (case ts_micros of None \<Rightarrow> clock 0 | Some v \<Rightarrow> v),
     venue = label, underlying_symbol = ''NIFTY'', underlying_spot = Some 24010,
     instrument_id =
       ''NIFTY_'' @
       (case e of ExpiryTimestamp d \<Rightarrow> strftime_ymd d
        | ExpiryOther s \<Rightarrow> filter (\<lambda>c. c \<noteq> CHR ''-'') s) @ ''_24000CE'',
     option_symbol = sym_ce,
     expiry_date = (case e of ExpiryTimestamp d \<Rightarrow> strftime_iso d | ExpiryOther s \<Rightarrow> s),
     strike = Some 24000, option_type = ''C'',
     best_bid_px = Some 150, best_bid_sz = Some 100, best_ask_px = None, best_ask_sz = None,
     mid_px = None, spread = None, last_trade_px = Some (241 / 2), last_trade_sz = Some 0,
     bid_px_1 = Some 150, bid_sz_1 = Some 100, bid_px_2 = None, bid_sz_2 = None,
     bid_px_3 = None, bid_sz_3 = None, ask_px_1 = None, ask_sz_1 = None,
     ask_px_2 = None, ask_sz_2 = None, ask_px_3 = None, ask_sz_3 = None\<rparr>,
    \<lparr>ts = (case ts_micros of None \<Rightarrow> clock 0 | Some v \<Rightarrow> v),
     venue = label, underlying_symbol = ''NIFTY'', underlying_spot = Some 24010,
     instrument_id =
       ''NIFTY_'' @
       (case e of ExpiryTimestamp d \<Rightarrow> strftime_ymd d
        | ExpiryOther s \<Rightarrow> filter (\<lambda>c. c \<noteq> CHR ''-'') s) @ ''_24000PE'',
     option_symbol = sym_pe,
     expiry_date = (case e of ExpiryTimestamp d \<Rightarrow> strftime_iso d | ExpiryOther s \<Rightarrow> s),
     strike = Some 24000, option_type = ''P'',
     best_bid_px = None, best_bid_sz = None, best_ask_px = None, best_ask_sz = None,
     mid_px = None, spread = None, last_trade_px = None, last_trade_sz = Some 0,
     bid_px_1 = None, bid_sz_1 = None, bid_px_2 = None, bid_sz_2 = None,
     bid_px_3 = None, bid_sz_3 = None, ask_px_1 = None, ask_sz_1 = None,
     ask_px_2 = None, ask_sz_2 = None, ask_px_3 = None, ask_sz_3 = None\<rparr>]"
  by (cases ts_micros)
     (simp_all add: scenario_rows_def build_snapshot_def scenario_universe_value scenario_ticks_def
        scenario_builder_def set_spot_price_def build_row_def Let_def extract_depth_def
        depth_side_def numeral_3_eq_3 compute_mid_spread_def contract_of_def str_or_empty_def
        str_int_24000 empty_tick_def ts_to_micros_def)

text \<open>
  Claim C3, as the code has it. In the end-to-end scenario the snapshot has two rows.
  The row of token 111 has \<open>best_bid_px = 150\<close>, \<open>best_bid_sz = 100\<close>,
  \<open>best_ask_px\<close>, \<open>mid_px\<close> and \<open>spread\<close> null, \<open>underlying_spot = 24010\<close> and
  \<open>option_type = "C"\<close>. The row of token 222, which has no tick, has every price and
  size field null except \<open>last_trade_sz\<close>, which is 0 (the default of
  \<open>tick.get("last_quantity", 0)\<close>), and its metadata fields are populated.
\<close>

theorem scenario_rows_fields:
  "(let rows = scenario_rows label tz clock sym_ce sym_pe e lot ts_micros;
        r111 = rows ! 0; r222 = rows ! 1
    in length rows = 2 \<and>
       best_bid_px r111 = Some 150 \<and> best_bid_sz r111 = Some 100 \<and> best_ask_px r111 = None \<and>
       mid_px r111 = None \<and> spread r111 = None \<and> underlying_spot r111 = Some 24010 \<and>
       option_type r111 = ''C'' \<and>
       best_bid_px r222 = None \<and> best_bid_sz r222 = None \<and>
       best_ask_px r222 = None \<and> best_ask_sz r222 = None \<and>
       mid_px r222 = None \<and> spread r222 = None \<and> last_trade_px r222 = None \<and>
       bid_px_1 r222 = None \<and> bid_sz_1 r222 = None \<and> bid_px_2 r222 = None \<and>
       bid_sz_2 r222 = None \<and> bid_px_3 r222 = None \<and> bid_sz_3 r222 = None \<and>
       ask_px_1 r222 = None \<and> ask_sz_1 r222 = None \<and> ask_px_2 r222 = None \<and>
       ask_sz_2 r222 = None \<and> ask_px_3 r222 = None \<and> ask_sz_3 r222 = None \<and>
       last_trade_sz r222 = Some 0 \<and>
       venue r222 = label \<and> underlying_symbol r222 = ''NIFTY'' \<and>
       underlying_spot r222 = Some 24010 \<and>
       instrument_id r222 =
         ''NIFTY_'' @
         (case e of ExpiryTimestamp d \<Rightarrow> strftime_ymd d
          | ExpiryOther s \<Rightarrow> filter (\<lambda>c. c \<noteq> CHR ''-'') s) @ ''_24000PE'' \<and>
       option_symbol r222 = sym_pe \<and>
       expiry_date r222 = (case e of ExpiryTimestamp d \<Rightarrow> strftime_iso d | ExpiryOther s \<Rightarrow> s) \<and>
       strike r222 = Some 24000 \<and> option_type r222 = ''P'')"
  unfolding Let_def scenario_rows_value by simp

text \<open>
  The claim as stated fails on the row of token 222: its \<open>last_trade_sz\<close> is 0, not
  null.
\<close>

theorem scenario_row_222_last_trade_sz:
  "last_trade_sz
     (scenario_rows ''NSE-FO'' (\<lambda>l. 19800000000) (\<lambda>k. 0) ''NIFTY24JAN24000CE''
        ''NIFTY24JAN24000PE'' (ExpiryTimestamp \<lparr>year = 2024, month = 1, day = 25\<rparr>)
        (Some 50) None ! 1) = Some 0 \<and>
   instrument_id
     (scenario_rows ''NSE-FO'' (\<lambda>l. 19800000000) (\<lambda>k. 0) ''NIFTY24JAN24000CE''
        ''NIFTY24JAN24000PE'' (ExpiryTimestamp \<lparr>year = 2024, month = 1, day = 25\<rparr>)
        (Some 50) None ! 1) = ''NIFTY_20240125_24000PE''"
  unfolding scenario_rows_value
  by (simp add: strftime_ymd_def zero_pad_def str_nat.simps digit_char_def)

section \<open>Sharding of tokens\<close>

lemma split_chunks_concat:
  "concat (split_chunks tokens i chunks) = concat chunks @ drop i tokens"
proof (induction tokens i chunks rule: split_chunks.induct)
  case (1 tokens i chunks)
  show ?case
  proof (cases "i < length tokens")
    case True
    have "take MAX_TOKENS_PER_CONNECTION (drop i tokens) @ drop (i + MAX_TOKENS_PER_CONNECTION) tokens
          = drop i tokens"
      by (metis add.commute append_take_drop_id drop_drop)
    with True "1.IH" show ?thesis
      by (simp add: split_chunks.simps [of tokens i chunks])
  next
    case False
    then show ?thesis by (simp add: split_chunks.simps [of tokens i chunks])
  qed
qed

lemma split_chunks_length:
  "length (split_chunks tokens i chunks) =
     length chunks + (length tokens - i + (MAX_TOKENS_PER_CONNECTION - 1)) div MAX_TOKENS_PER_CONNECTION"
proof (induction tokens i chunks rule: split_chunks.induct)
  case (1 tokens i chunks)
  show ?case
  proof (cases "i < length tokens")
    case True
    define d where "d = length tokens - i"
    from True have d: "0 < d" "length tokens - (i + 3000) = d - 3000" "length tokens + 2999 - i = d + 2999"
      by (simp_all add: d_def)
    have "(d + 2999) div 3000 = Suc ((d - 3000 + 2999) div 3000)"
    proof (cases "d \<le> 3000")
      case True
      with d(1) have "(d + 2999) div 3000 = 1"
        by (intro div_nat_eqI) simp_all
      with True show ?thesis by simp
    next
      case False
      then obtain e where "d = e + 3000"
        by (metis le_add_diff_inverse2 nat_le_linear)
      then show ?thesis by simp
    qed
    with True "1.IH" d show ?thesis
      by (simp add: split_chunks.simps [of tokens i chunks] MAX_TOKENS_PER_CONNECTION_def)
  next
    case False
    then show ?thesis
      by (simp add: split_chunks.simps [of tokens i chunks] MAX_TOKENS_PER_CONNECTION_def)
  qed
qed

lemma split_chunks_sizes:
  "\<forall>c \<in> set chunks. length c \<le> MAX_TOKENS_PER_CONNECTION \<Longrightarrow>
   \<forall>c \<in> set (split_chunks tokens i chunks). length c \<le> MAX_TOKENS_PER_CONNECTION"
proof (induction tokens i chunks rule: split_chunks.induct)
  case (1 tokens i chunks)
  show ?case
  proof (cases "i < length tokens")
    case True
    with "1.IH" "1.prems" show ?thesis
      by (simp add: split_chunks.simps [of tokens i chunks])
  next
    case False
    with "1.prems" show ?thesis by (simp add: split_chunks.simps [of tokens i chunks])
  qed
qed

lemma create_streams_tokens:
  "map subscribed_tokens (streams (create_streams m chunks)) =
     map subscribed_tokens (streams m) @ chunks"
  by (induction m chunks rule: create_streams.induct)
     (simp_all add: Let_def stream_set_tokens_def new_ticker_stream_def)

lemma concat_distinct_disjoint:
  "distinct (concat xs) \<Longrightarrow> i < j \<Longrightarrow> j < length xs \<Longrightarrow> set (xs ! i) \<inter> set (xs ! j) = {}"
proof (induction xs arbitrary: i j)
  case Nil
  then show ?case by simp
next
  case (Cons x xs)
  show ?case
  proof (cases i)
    case 0
    with Cons.prems obtain j' where j: "j = Suc j'" "j' < length xs"
      by (cases j) auto
    then have "xs ! j' \<in> set xs" by simp
    then have "set (xs ! j') \<subseteq> set (concat xs)" by auto
    with Cons.prems(1) 0 j show ?thesis by auto
  next
    case (Suc i')
    with Cons.prems obtain j' where j: "j = Suc j'" "j' < length xs" "i' < j'"
      by (cases j) auto
    with Cons.IH [of i' j'] Cons.prems(1) Suc show ?thesis by simp
  qed
qed

lemma ceiling_tokens_div: "nat \<lceil>real n / real MAX_TOKENS_PER_CONNECTION\<rceil> = (n + 2999) div 3000"
proof -
  have "\<lceil>real n / real MAX_TOKENS_PER_CONNECTION\<rceil> = \<lceil>(of_int (int n) :: real) / of_int (3000::int)\<rceil>"
    by (simp add: MAX_TOKENS_PER_CONNECTION_def)
  also have "\<dots> = - (- int n div 3000)"
    by (rule ceiling_divide_eq_div)
  finally have "\<lceil>real n / real MAX_TOKENS_PER_CONNECTION\<rceil> = - (- int n div 3000)" .
  moreover have "nat (- (- int n div 3000)) = (n + 2999) div 3000" by linarith
  ultimately show ?thesis by simp
qed

lemma set_tokens_chunks:
  "map subscribed_tokens (streams (set_tokens m tokens)) =
     split_chunks (take (MAX_TOKENS_PER_CONNECTION * MAX_CONNECTIONS) tokens) 0 []"
  by (simp add: set_tokens_def Let_def create_streams_tokens)

text \<open>
  Claim C7. For a list of N tokens, \<open>set_tokens\<close> creates
  min(MAX\_CONNECTIONS, ceil(N / MAX\_TOKENS\_PER\_CONNECTION)) streams, with
  MAX\_CONNECTIONS = 3 and MAX\_TOKENS\_PER\_CONNECTION = 3000; every stream is given at
  most 3000 tokens; when the tokens are distinct the streams' token sets are pairwise
  disjoint; and the streams' tokens, read in stream order, are exactly the first 9000
  tokens of the input in input order (all of them when N is at most 9000).
\<close>

theorem set_tokens_shards:
  "MAX_CONNECTIONS = 3 \<and> MAX_TOKENS_PER_CONNECTION = 3000 \<and>
   length (streams (set_tokens m tokens)) =
     min MAX_CONNECTIONS (nat \<lceil>real (length tokens) / real MAX_TOKENS_PER_CONNECTION\<rceil>) \<and>
   (\<forall>s \<in> set (streams (set_tokens m tokens)). length (subscribed_tokens s) \<le> 3000) \<and>
   (distinct tokens \<longrightarrow>
      (\<forall>i j. i < j \<and> j < length (streams (set_tokens m tokens)) \<longrightarrow>
         set (subscribed_tokens (streams (set_tokens m tokens) ! i)) \<inter>
         set (subscribed_tokens (streams (set_tokens m tokens) ! j)) = {})) \<and>
   concat (map subscribed_tokens (streams (set_tokens m tokens))) = take 9000 tokens"
proof -
  let ?ss = "streams (set_tokens m tokens)"
  let ?cs = "map subscribed_tokens ?ss"
  have cs: "?cs = split_chunks (take 9000 tokens) 0 []"
    by (simp add: set_tokens_chunks MAX_TOKENS_PER_CONNECTION_def MAX_CONNECTIONS_def)
  have "length ?ss = length ?cs" by simp
  also have "\<dots> = (min (length tokens) 9000 + 2999) div 3000"
    unfolding cs by (simp add: split_chunks_length MAX_TOKENS_PER_CONNECTION_def)
  also have "\<dots> = min 3 ((length tokens + 2999) div 3000)"
    by linarith
  finally have len: "length ?ss =
      min MAX_CONNECTIONS (nat \<lceil>real (length tokens) / real MAX_TOKENS_PER_CONNECTION\<rceil>)"
    by (simp add: ceiling_tokens_div MAX_CONNECTIONS_def)
  have "\<forall>c \<in> set ?cs. length c \<le> MAX_TOKENS_PER_CONNECTION"
    unfolding cs by (rule split_chunks_sizes) simp
  then have sizes: "\<forall>s \<in> set ?ss. length (subscribed_tokens s) \<le> 3000"
    by (simp add: MAX_TOKENS_PER_CONNECTION_def)
  have cat: "concat ?cs = take 9000 tokens"
    unfolding cs by (simp add: split_chunks_concat)
  have disj: "set (subscribed_tokens (?ss ! i)) \<inter> set (subscribed_tokens (?ss ! j)) = {}"
    if "distinct tokens" "i < j" "j < length ?ss" for i j
  proof -
    from that(1) have "distinct (concat ?cs)"
      unfolding cat by simp
    from concat_distinct_disjoint [OF this, of i j] that(2,3) show ?thesis
      by simp
  qed
  from len sizes cat disj show ?thesis
    by (simp add: MAX_CONNECTIONS_def MAX_TOKENS_PER_CONNECTION_def)
qed

theorem set_tokens_shards_witness:
  "distinct (map int [0..<9001]) \<and>
   length (streams (set_tokens example_multi_stream (map int [0..<9001]))) = 3 \<and>
   set (subscribed_tokens (streams (set_tokens example_multi_stream (map int [0..<9001])) ! 0)) \<inter>
   set (subscribed_tokens (streams (set_tokens example_multi_stream (map int [0..<9001])) ! 2)) = {} \<and>
   concat (map subscribed_tokens (streams (set_tokens example_multi_stream (map int [0..<9001])))) =
     map int [0..<9000]"
proof -
  have d: "distinct (map int [0..<9001])"
    by (simp add: distinct_map)
  note inst = set_tokens_shards [of example_multi_stream "map int [0..<9001]"]
  from inst have len: "length (streams (set_tokens example_multi_stream (map int [0..<9001]))) = 3"
    by (simp add: MAX_CONNECTIONS_def MAX_TOKENS_PER_CONNECTION_def)
  from inst d len
  have dis: "set (subscribed_tokens (streams (set_tokens example_multi_stream (map int [0..<9001])) ! 0)) \<inter>
   set (subscribed_tokens (streams (set_tokens example_multi_stream (map int [0..<9001])) ! 2)) = {}"
    by simp
  from inst
  have cat: "concat (map subscribed_tokens (streams (set_tokens example_multi_stream (map int [0..<9001])))) =
     map int [0..<9000]"
    by (simp add: take_map)
  from d len dis cat show ?thesis by blast
qed

section \<open>Scheduling of snapshots\<close>

lemma snapshot_iteration_fire:
  "fst (snapshot_iteration tk cf interval now now_after (next_snapshot, s)) = (next_snapshot \<le> now)"
  by (simp add: snapshot_iteration_def Let_def)

lemma snapshot_iteration_next:
  "fst (snd (snapshot_iteration tk cf interval now now_after (next_snapshot, s))) =
     (if next_snapshot \<le> now then now + interval else next_snapshot)"
  by (simp add: snapshot_iteration_def Let_def)

text \<open>
  Claim C8, as the code has it. An iteration fires a snapshot exactly when its clock
  reading \<open>now\<close> (taken at the top of the iteration, before the snapshot) has reached
  \<open>next_snapshot\<close>; it then sets \<open>next_snapshot\<close> to \<open>now + interval\<close>, and leaves it
  unchanged otherwise. So after a cycle that runs longer than one interval (the next
  reading is at least \<open>now + interval\<close>) the following iteration fires at once.
\<close>

theorem snapshot_iteration_schedule:
  "(case snapshot_iteration tk cf interval now now_after (next_snapshot, s) of
      (fire, next_snapshot', slept, s') \<Rightarrow>
        fire = (next_snapshot \<le> now) \<and>
        next_snapshot' = (if next_snapshot \<le> now then now + interval else next_snapshot) \<and>
        (next_snapshot \<le> now \<and> now + interval \<le> now2 \<longrightarrow>
           fst (snapshot_iteration tk cf interval now2 now_after2 (next_snapshot', s'))))"
  by (simp add: snapshot_iteration_def Let_def)

theorem snapshot_iteration_schedule_witness:
  "fst (snapshot_loop (\<lambda>s. Suc s) (\<lambda>s. s) 1 [(10, 25 / 2), (25 / 2, 63 / 5)] (10, 0)) = [True, True] \<and>
   snapshot_iteration (\<lambda>s. Suc s) (\<lambda>s. s) 1 10 (25 / 2) (10, 0) = (True, 11, 0, 1) \<and>
   fst (snapshot_iteration (\<lambda>s. Suc s) (\<lambda>s. s) 1 (25 / 2) (63 / 5) (11, 1))"
proof -
  have it: "snapshot_iteration (\<lambda>s. Suc s) (\<lambda>s. s) 1 10 (25 / 2) (10, 0::nat) = (True, 11, 0, 1)"
    by (simp add: snapshot_iteration_def Let_def)
  from snapshot_iteration_schedule [where tk = "\<lambda>s. Suc s" and cf = "\<lambda>s. s" and interval = 1
      and now = 10 and now_after = "25 / 2" and next_snapshot = 10 and s = "0::nat"
      and ?now2.0 = "25 / 2" and ?now_after2.0 = "63 / 5"]
  have nxt: "fst (snapshot_iteration (\<lambda>s. Suc s) (\<lambda>s. s) 1 (25 / 2) (63 / 5) (11, 1::nat))"
    by (simp add: it)
  have "fst (snapshot_loop (\<lambda>s. Suc s) (\<lambda>s. s) 1 [(10, 25 / 2), (25 / 2, 63 / 5)] (10, 0::nat)) = [True, True]"
    by (simp add: snapshot_iteration_def Let_def)
  with it nxt show ?thesis by simp
qed

text \<open>
  The claim as stated fails: with \<open>next_snapshot = 10\<close>, interval 1 and the reading
  \<open>now = 10.5\<close>, the new \<open>next_snapshot\<close> is 11.5, not 10 + 1.
\<close>

theorem snapshot_iteration_not_incremented:
  "fst (snapshot_iteration (\<lambda>s. Suc s) (\<lambda>s. s) 1 (21 / 2) (21 / 2) (10, 0)) \<and>
   fst (snd (snapshot_iteration (\<lambda>s. Suc s) (\<lambda>s. s) 1 (21 / 2) (21 / 2) (10, 0))) = 23 / 2 \<and>
   fst (snd (snapshot_iteration (\<lambda>s. Suc s) (\<lambda>s. s) 1 (21 / 2) (21 / 2) (10, 0))) \<noteq> 10 + 1"
  by (simp add: snapshot_iteration_def Let_def)

section \<open>File names\<close>

lemma digit_val_digit_char: "k < 10 \<Longrightarrow> digit_val (digit_char k) = k"
proof -
  assume "k < 10"
  then have "k \<in> set [0..<10]" by simp
  also have "[0..<10] = [0, 1, 2, 3, 4, 5, 6, 7, 8, 9::nat]" by code_simp
  finally have "k = 0 \<or> k = 1 \<or> k = 2 \<or> k = 3 \<or> k = 4 \<or> k = 5 \<or> k = 6 \<or> k = 7 \<or> k = 8 \<or> k = 9"
    by simp
  then show ?thesis
    by (elim disjE) (simp_all add: digit_val_def digit_char_def)
qed

lemma nat_of_str_snoc: "nat_of_str (s @ [c]) = 10 * nat_of_str s + digit_val c"
  by (simp add: nat_of_str_def)

lemma nat_of_str_str_nat: "nat_of_str (str_nat n) = n"
proof (induction n rule: str_nat.induct)
  case (1 n)
  show ?case
  proof (cases "n < 10")
    case True
    then show ?thesis
      by (simp add: str_nat.simps [of n] nat_of_str_def digit_val_digit_char)
  next
    case False
    with "1.IH" show ?thesis
      by (simp add: str_nat.simps [of n] nat_of_str_snoc digit_val_digit_char)
  qed
qed

lemma nat_of_str_zeros: "foldl (\<lambda>a c. 10 * a + digit_val c) 0 (replicate k CHR ''0'') = 0"
  by (induction k) (simp_all add: digit_val_def)

lemma nat_of_str_zero_pad: "nat_of_str (zero_pad k (str_nat n)) = n"
  using nat_of_str_str_nat [of n]
  by (simp add: zero_pad_def nat_of_str_def nat_of_str_zeros)

lemma length_str_nat_1: "n < 10 \<Longrightarrow> length (str_nat n) = 1"
  by (simp add: str_nat.simps [of n])

lemma length_str_nat_2: "n < 100 \<Longrightarrow> length (str_nat n) \<le> 2"
  using length_str_nat_1 [of "n div 10"] by (simp add: str_nat.simps [of n])

lemma length_str_nat_3: "n < 1000 \<Longrightarrow> length (str_nat n) \<le> 3"
  using length_str_nat_2 [of "n div 10"] by (simp add: str_nat.simps [of n])

lemma length_str_nat_4: "n < 10000 \<Longrightarrow> length (str_nat n) \<le> 4"
  using length_str_nat_3 [of "n div 10"] by (simp add: str_nat.simps [of n])

lemma length_zero_pad: "length s \<le> k \<Longrightarrow> length (zero_pad k s) = k"
  by (simp add: zero_pad_def)

lemma length_strftime_ymd: "valid_date d \<Longrightarrow> length (strftime_ymd d) = 8"
  using length_str_nat_4 [of "year d"] length_str_nat_2 [of "month d"] length_str_nat_2 [of "day d"]
  by (simp add: strftime_ymd_def valid_date_def length_zero_pad)

lemma strftime_ymd_inj:
  assumes "valid_date d" "valid_date d'" "strftime_ymd d = strftime_ymd d'"
  shows "d = d'"
proof -
  have l4: "length (zero_pad 4 (str_nat (year d))) = length (zero_pad 4 (str_nat (year d')))"
    using assms(1,2) length_str_nat_4 [of "year d"] length_str_nat_4 [of "year d'"]
    by (simp add: valid_date_def length_zero_pad)
  have l2: "length (zero_pad 2 (str_nat (month d))) = length (zero_pad 2 (str_nat (month d')))"
    using assms(1,2) length_str_nat_2 [of "month d"] length_str_nat_2 [of "month d'"]
    by (simp add: valid_date_def length_zero_pad)
  from assms(3) l4 have y: "zero_pad 4 (str_nat (year d)) = zero_pad 4 (str_nat (year d'))"
    and rest: "zero_pad 2 (str_nat (month d)) @ zero_pad 2 (str_nat (day d)) =
               zero_pad 2 (str_nat (month d')) @ zero_pad 2 (str_nat (day d'))"
    by (simp_all add: strftime_ymd_def)
  from rest l2 have m: "zero_pad 2 (str_nat (month d)) = zero_pad 2 (str_nat (month d'))"
    and dd: "zero_pad 2 (str_nat (day d)) = zero_pad 2 (str_nat (day d'))"
    by simp_all
  from y have "year d = year d'"
    by (metis nat_of_str_zero_pad)
  moreover from m have "month d = month d'"
    by (metis nat_of_str_zero_pad)
  moreover from dd have "day d = day d'"
    by (metis nat_of_str_zero_pad)
  ultimately show ?thesis by simp
qed

lemma file_path_eq_iff:
  assumes "valid_date a" "valid_date b" "valid_date c" "valid_date d"
  shows "(file_path w a (Some b) = file_path w c (Some d)) = (a = c \<and> b = d)"
proof
  assume "file_path w a (Some b) = file_path w c (Some d)"
  then have "strftime_ymd a @ ''_'' @ strftime_ymd b @ ''.csv'' = strftime_ymd c @ ''_'' @ strftime_ymd d @ ''.csv''"
    by (simp add: file_path_def get_filename_def)
  with assms have "strftime_ymd a = strftime_ymd c \<and> strftime_ymd b = strftime_ymd d"
    by (simp add: length_strftime_ymd)
  with assms show "a = c \<and> b = d"
    by (auto dest: strftime_ymd_inj)
next
  assume "a = c \<and> b = d"
  then show "file_path w a (Some b) = file_path w c (Some d)" by simp
qed

lemma file_path_None: "file_path w a None = file_path w a (Some a)"
  by (simp add: file_path_def get_filename_def)

section \<open>Flushing\<close>

lemma close_file_frame:
  "case close_file w W of (w', W') \<Rightarrow>
   same_clock W W' \<and> same_config w w' \<and> files W' = files W \<and> flush_count W' = flush_count W \<and>
   buffer w' = buffer w \<and> rows_written w' = rows_written w \<and> start_date w' = start_date w \<and>
   current_file w' = current_file w \<and> last_flush_time w' = last_flush_time w"
  by (simp add: close_file_def same_clock_def same_config_def flush_count_def split: option.split)

lemma rename_with_end_date_frame:
  "case rename_with_end_date w W of (w', W') \<Rightarrow>
   same_clock W W' \<and> same_config w w' \<and> flush_count W' = flush_count W \<and>
   buffer w' = buffer w \<and> rows_written w' = rows_written w \<and> start_date w' = start_date w \<and>
   last_flush_time w' = last_flush_time w"
  by (simp add: rename_with_end_date_def close_file_def Let_def same_clock_def same_config_def
      flush_count_def split: option.split)

lemma open_file_ok:
  "\<not> open_fails W \<Longrightarrow> \<not> header_fails W \<Longrightarrow>
   (case open_file d w W of (e, w', W') \<Rightarrow>
   e = None \<and> same_clock W W' \<and> same_config w w' \<and> flush_count W' = flush_count W \<and>
   buffer w' = buffer w \<and> rows_written w' = rows_written w \<and> start_date w' = Some d \<and>
   csv_writer w' = Some (file_path w d None) \<and> file_handle w' = Some (file_path w d None) \<and>
   current_file w' = Some (file_path w d None))"
  by (simp add: open_file_def close_file_def Let_def same_clock_def same_config_def
      flush_count_def file_path_def get_filename_def split: option.split)


lemma check_rollover_ok:
  assumes "\<not> open_fails W" "\<not> header_fails W"
  shows "case check_rollover w W of (e, w', W') \<Rightarrow>
   e = None \<and> same_clock W W' \<and> same_config w w' \<and> flush_count W' = flush_count W \<and>
   buffer w' = buffer w \<and> rows_written w' = rows_written w \<and>
   (start_date w' = None \<or> start_date w' = Some (today_date W)) \<and>
   (if start_date w = None \<or> start_date w = Some (today_date W)
    then w' = w \<and> W' = W else csv_writer w' \<noteq> None)"
proof (cases "start_date w = None \<or> start_date w = Some (today_date W)")
  case True
  then show ?thesis
    by (auto simp: check_rollover_def Let_def same_clock_def same_config_def)
next
  case False
  then obtain sd where sd: "start_date w = Some sd" "sd \<noteq> today_date W" by auto
  obtain w1 W1 where r: "rename_with_end_date w W = (w1, W1)" by fastforce
  from rename_with_end_date_frame [where w = w and W = W] r
  have fr: "same_clock W W1" "same_config w w1" "flush_count W1 = flush_count W"
    "buffer w1 = buffer w" "rows_written w1 = rows_written w"
    by simp_all
  from fr(1) assms have nf: "\<not> open_fails W1" "\<not> header_fails W1"
    by (simp_all add: same_clock_def)
  obtain e w' W' where o: "open_file (today_date W) w1 W1 = (e, w', W')"
    by (metis prod_cases3)
  from open_file_ok [OF nf, where d = "today_date W" and w = w1] o
  have oo: "e = None" "same_clock W1 W'" "same_config w1 w'" "flush_count W' = flush_count W1"
    "buffer w' = buffer w1" "rows_written w' = rows_written w1"
    "start_date w' = Some (today_date W)" "csv_writer w' \<noteq> None"
    by simp_all
  have c: "check_rollover w W = (e, w', W')"
    using sd r o by (simp add: check_rollover_def Let_def)
  from fr oo sd show ?thesis
    unfolding c by (simp add: same_clock_def same_config_def)
qed


lemma do_flush_ok:
  assumes "buffer w \<noteq> []" "\<not> open_fails W" "\<not> header_fails W"
  shows "case do_flush w W of (e, w', W') \<Rightarrow>
   e = None \<and> same_clock W W' \<and> same_config w w' \<and> buffer w' = [] \<and>
   last_flush_time w' = Some (now_micros W) \<and> csv_writer w' \<noteq> None \<and>
   (start_date w' = None \<or> start_date w' = Some (today_date W)) \<and>
   (if write_fails W
    then rows_written w' = rows_written w \<and> flush_count W' = flush_count W
    else rows_written w' = rows_written w + length (buffer w) \<and>
         flush_count W' = Suc (flush_count W) \<and>
         trace W' \<noteq> [] \<and> last (trace W') = OpWriteRows (the (csv_writer w')) (buffer w))"
proof -
  obtain e1 w1 W1 where c: "check_rollover w W = (e1, w1, W1)"
    by (metis prod_cases3)
  from check_rollover_ok [OF assms(2,3), where w = w] c
  have cr: "e1 = None" "same_clock W W1" "same_config w w1" "flush_count W1 = flush_count W"
    "buffer w1 = buffer w" "rows_written w1 = rows_written w"
    "start_date w1 = None \<or> start_date w1 = Some (today_date W)"
    by simp_all
  obtain e2 w2 W2 where o:
    "(if csv_writer w1 = None then open_file (today_date W1) w1 W1 else (None, w1, W1)) = (e2, w2, W2)"
    by (metis prod_cases3)
  have f2: "e2 = None \<and> same_clock W W2 \<and> same_config w w2 \<and> flush_count W2 = flush_count W \<and>
     buffer w2 = buffer w \<and> rows_written w2 = rows_written w \<and> csv_writer w2 \<noteq> None \<and>
     (start_date w2 = None \<or> start_date w2 = Some (today_date W))"
  proof (cases "csv_writer w1 = None")
    case True
    with o have o': "open_file (today_date W1) w1 W1 = (e2, w2, W2)" by simp
    from cr(2) assms(2,3) have nf: "\<not> open_fails W1" "\<not> header_fails W1"
      by (simp_all add: same_clock_def)
    from open_file_ok [OF nf, where d = "today_date W1" and w = w1] o'
    have "e2 = None" "same_clock W1 W2" "same_config w1 w2" "flush_count W2 = flush_count W1"
      "buffer w2 = buffer w1" "rows_written w2 = rows_written w1"
      "start_date w2 = Some (today_date W1)" "csv_writer w2 \<noteq> None"
      by simp_all
    with cr show ?thesis
      by (simp add: same_clock_def same_config_def)
  next
    case False
    with o cr show ?thesis by auto
  qed
  then obtain p where p: "csv_writer w2 = Some p" by auto
  have d: "do_flush w W =
    (if write_fails W2
     then (None, w2\<lparr>buffer := [], last_flush_time := Some (now_micros W2)\<rparr>,
           W2\<lparr>trace := trace W2 @ [OpWriteError p]\<rparr>)
     else (None,
           w2\<lparr>rows_written := rows_written w2 + length (buffer w2),
              buffer := [], last_flush_time := Some (now_micros W2)\<rparr>,
           W2\<lparr>files := (files W2)(p \<mapsto> file_rows W2 p @ buffer w2),
              trace := trace W2 @ [OpWriteRows p (buffer w2)]\<rparr>))"
    using assms(1) c cr(1) o f2 p unfolding do_flush_def by simp
  from f2 p show ?thesis
    unfolding d by (simp add: same_clock_def same_config_def flush_count_def)
qed


section \<open>A failed write\<close>




text \<open>
  The example writer is a state the operations reach: a new writer with
  \<open>flush_rows = 2\<close>, written three rows one by one on the first day.
\<close>

lemma opened_writer_reached: "and_then (write_each (\<lambda>r. r) [[''r0''], [''r1'']] (new_writer ''out'' ''nifty'' ''NSEFO'' 2 1) calm_world)
   (write_row (\<lambda>r. r) [''r2'']) = (None, opened_writer, opened_world)"
  by (simp add: and_then_def write_row_def Let_def new_writer_def calm_world_def do_flush_def
      check_rollover_def open_file_def close_file_def file_path_def get_filename_def upper_def upper_char_def
      strftime_ymd_def zero_pad_def str_nat.simps digit_char_def day_one_def opened_writer_def opened_world_def
      day_one_file_def file_rows_def)



section \<open>Flush triggers\<close>

lemma write_each_below:
  "int (length (buffer w) + length rs) < flush_rows w \<Longrightarrow>
   write_each fmt rs w W = (None, w\<lparr>buffer := buffer w @ map fmt rs\<rparr>, W)"
proof (induction rs arbitrary: w)
  case Nil
  then show ?case by simp
next
  case (Cons r rs)
  let ?w1 = "w\<lparr>buffer := buffer w @ [fmt r]\<rparr>"
  from Cons.prems have wr: "write_row fmt r w W = (None, ?w1, W)"
    by (simp add: write_row_def Let_def)
  from Cons.prems have "int (length (buffer ?w1) + length rs) < flush_rows ?w1"
    by simp
  from Cons.IH [OF this] wr show ?case by simp
qed

lemma write_each_snoc:
  "write_each fmt (rs @ [r]) w W = and_then (write_each fmt rs w W) (write_row fmt r)"
proof (induction rs arbitrary: w W)
  case Nil
  show ?case
    by (cases "write_row fmt r w W" rule: prod_cases3) (auto simp: and_then_def split: option.splits)
next
  case (Cons a rs)
  show ?case
    by (cases "write_row fmt a w W" rule: prod_cases3) (auto simp: and_then_def Cons.IH split: option.splits)
qed

lemma write_each_reaching:
  assumes "buffer w = []" "rows \<noteq> []" "flush_rows w = int (length rows)"
  shows "write_each fmt rows w W = do_flush (w\<lparr>buffer := map fmt rows\<rparr>) W"
proof -
  from assms(2) obtain rs r where rows: "rows = rs @ [r]"
    by (metis rev_exhaust)
  from assms(1,3) rows have "int (length (buffer w) + length rs) < flush_rows w"
    by simp
  from write_each_below [OF this, of fmt W] assms(1)
  have "write_each fmt rs w W = (None, w\<lparr>buffer := map fmt rs\<rparr>, W)" by simp
  with assms(3) rows show ?thesis
    by (simp add: write_each_snoc and_then_def write_row_def Let_def)
qed

text \<open>
  Claim C2, as the code has it. Take a writer with an empty buffer and a world in which
  no file operation fails. (1) If \<open>flush_rows\<close> is the number of rows written (at
  least one), with no time elapsed, then no write before the last one flushes, and the
  last one forces exactly one flush, of all the rows; the same holds for one
  \<open>write_rows\<close> call. (2) If the writer has opened a file before (its time of the last
  flush is set, not later than now) and \<open>flush_rows\<close> is more than 1, then writing one
  row does not flush, and after a wait of at least \<open>flush_interval_seconds\<close> the next
  \<open>check_time_flush\<close> flushes exactly once: a second call right after it does nothing.
\<close>

theorem flush_triggers:
  assumes "buffer w = []" "\<not> open_fails W" "\<not> header_fails W" "\<not> write_fails W"
  shows
   "(rows \<noteq> [] \<and> flush_rows w = int (length rows) \<longrightarrow>
      (\<forall>k<length rows.
         write_each fmt (take k rows) w W = (None, w\<lparr>buffer := map fmt (take k rows)\<rparr>, W)) \<and>
      (case write_each fmt rows w W of
         (e, w', W') \<Rightarrow>
           e = None \<and> buffer w' = [] \<and> flush_count W' = flush_count W + 1 \<and>
           rows_written w' = rows_written w + length rows \<and>
           last (trace W') = OpWriteRows (the (csv_writer w')) (map fmt rows)) \<and>
      (case write_rows fmt rows w W of
         (e, w', W') \<Rightarrow>
           e = None \<and> buffer w' = [] \<and> flush_count W' = flush_count W + 1 \<and>
           rows_written w' = rows_written w + length rows \<and>
           last (trace W') = OpWriteRows (the (csv_writer w')) (map fmt rows))) \<and>
    (1 < flush_rows w \<and> last_flush_time w = Some t0 \<and> t0 \<le> now_micros W \<and>
     flush_interval_seconds w \<le> real_of_int wait / 1000000 \<longrightarrow>
      write_row fmt r w W = (None, w\<lparr>buffer := [fmt r]\<rparr>, W) \<and>
      (case check_time_flush (w\<lparr>buffer := [fmt r]\<rparr>) (W\<lparr>now_micros := now_micros W + wait\<rparr>) of
         (e, w', W') \<Rightarrow>
           e = None \<and> buffer w' = [] \<and> flush_count W' = flush_count W + 1 \<and>
           rows_written w' = rows_written w + 1 \<and>
           last (trace W') = OpWriteRows (the (csv_writer w')) [fmt r] \<and>
           check_time_flush w' W' = (None, w', W')))"
proof (intro conjI impI)
  assume a: "rows \<noteq> [] \<and> flush_rows w = int (length rows)"
  let ?w1 = "w\<lparr>buffer := map fmt rows\<rparr>"
  from a have ne: "buffer ?w1 \<noteq> []" by simp
  obtain e w' W' where d: "do_flush ?w1 W = (e, w', W')"
    by (metis prod_cases3)
  from do_flush_ok [OF ne assms(2,3)] d assms(4)
  have ok: "e = None \<and> buffer w' = [] \<and> flush_count W' = flush_count W + 1 \<and>
           rows_written w' = rows_written w + length rows \<and>
           last (trace W') = OpWriteRows (the (csv_writer w')) (map fmt rows)"
    by simp
  show "\<forall>k<length rows.
         write_each fmt (take k rows) w W = (None, w\<lparr>buffer := map fmt (take k rows)\<rparr>, W)"
  proof (intro allI impI)
    fix k assume "k < length rows"
    with a assms(1) have "int (length (buffer w) + length (take k rows)) < flush_rows w"
      by simp
    from write_each_below [OF this, of fmt W] assms(1)
    show "write_each fmt (take k rows) w W = (None, w\<lparr>buffer := map fmt (take k rows)\<rparr>, W)"
      by simp
  qed
  from a have a1: "rows \<noteq> []" and a2: "flush_rows w = int (length rows)"
    by simp_all
  have "write_each fmt rows w W = do_flush ?w1 W"
    by (rule write_each_reaching [OF assms(1) a1 a2])
  with ok d show "case write_each fmt rows w W of
         (e, w', W') \<Rightarrow>
           e = None \<and> buffer w' = [] \<and> flush_count W' = flush_count W + 1 \<and>
           rows_written w' = rows_written w + length rows \<and>
           last (trace W') = OpWriteRows (the (csv_writer w')) (map fmt rows)"
    by simp
  from a assms(1) have "write_rows fmt rows w W = do_flush ?w1 W"
    by (simp add: write_rows_def Let_def)
  with ok d show "case write_rows fmt rows w W of
         (e, w', W') \<Rightarrow>
           e = None \<and> buffer w' = [] \<and> flush_count W' = flush_count W + 1 \<and>
           rows_written w' = rows_written w + length rows \<and>
           last (trace W') = OpWriteRows (the (csv_writer w')) (map fmt rows)"
    by simp
next
  assume b: "1 < flush_rows w \<and> last_flush_time w = Some t0 \<and> t0 \<le> now_micros W \<and>
     flush_interval_seconds w \<le> real_of_int wait / 1000000"
  let ?w1 = "w\<lparr>buffer := [fmt r]\<rparr>"
  let ?W1 = "W\<lparr>now_micros := now_micros W + wait\<rparr>"
  from b assms(1) show "write_row fmt r w W = (None, ?w1, W)"
    by (simp add: write_row_def Let_def)
  have ne: "buffer ?w1 \<noteq> []" by simp
  have nf: "\<not> open_fails ?W1" "\<not> header_fails ?W1" using assms(2,3) by simp_all
  obtain e w' W' where d: "do_flush ?w1 ?W1 = (e, w', W')"
    by (metis prod_cases3)
  from do_flush_ok [OF ne nf] d assms(4)
  have ok: "e = None" "buffer w' = []" "flush_count W' = flush_count W + 1"
           "rows_written w' = rows_written w + 1"
           "last (trace W') = OpWriteRows (the (csv_writer w')) [fmt r]"
           "last_flush_time w' = Some (now_micros ?W1)" "same_clock ?W1 W'"
    by (simp_all add: flush_count_def)
  from b have "real_of_int (now_micros W + wait - t0) / 1000000 \<ge> real_of_int wait / 1000000"
    by (simp add: divide_right_mono)
  with b have el: "flush_interval_seconds w \<le> real_of_int (now_micros W + wait - t0) / 1000000"
    by linarith
  from b el have c: "check_time_flush ?w1 ?W1 = do_flush ?w1 ?W1"
    by (simp add: check_time_flush_def Let_def)
  from ok have again: "check_time_flush w' W' = (None, w', W')"
    by (simp add: check_time_flush_def Let_def same_clock_def)
  from ok again show "case check_time_flush ?w1 ?W1 of
         (e, w', W') \<Rightarrow>
           e = None \<and> buffer w' = [] \<and> flush_count W' = flush_count W + 1 \<and>
           rows_written w' = rows_written w + 1 \<and>
           last (trace W') = OpWriteRows (the (csv_writer w')) [fmt r] \<and>
           check_time_flush w' W' = (None, w', W')"
    unfolding c d by simp
qed

theorem flush_triggers_witness:
  "buffer (opened_writer\<lparr>buffer := []\<rparr>) = [] \<and>
   \<not> open_fails opened_world \<and> \<not> header_fails opened_world \<and> \<not> write_fails opened_world \<and>
   flush_rows (opened_writer\<lparr>buffer := []\<rparr>) = int (length [[''r2''], [''r3'']]) \<and>
   write_each (\<lambda>r. r) [[''r2'']] (opened_writer\<lparr>buffer := []\<rparr>) opened_world =
     (None, opened_writer, opened_world) \<and>
   (case write_each (\<lambda>r. r) [[''r2''], [''r3'']] (opened_writer\<lparr>buffer := []\<rparr>) opened_world of
      (e, w', W') \<Rightarrow>
        e = None \<and> buffer w' = [] \<and> flush_count W' = 2 \<and> rows_written w' = 4 \<and>
        last (trace W') = OpWriteRows day_one_file [[''r2''], [''r3'']]) \<and>
   last_flush_time (opened_writer\<lparr>buffer := []\<rparr>) = Some 0 \<and>
   flush_interval_seconds (opened_writer\<lparr>buffer := []\<rparr>) \<le> real_of_int 1000000 / 1000000 \<and>
   (case check_time_flush opened_writer (opened_world\<lparr>now_micros := now_micros opened_world + 1000000\<rparr>) of
      (e, w', W') \<Rightarrow>
        e = None \<and> buffer w' = [] \<and> flush_count W' = 2 \<and> rows_written w' = 3 \<and>
        last (trace W') = OpWriteRows day_one_file [[''r2'']] \<and>
        check_time_flush w' W' = (None, w', W'))"
proof -
  let ?w = "opened_writer\<lparr>buffer := []\<rparr>"
  let ?rows = "[[''r2''], [''r3'']]"
  let ?W2 = "opened_world\<lparr>now_micros := now_micros opened_world + 1000000\<rparr>"
  have h: "buffer ?w = []" "\<not> open_fails opened_world" "\<not> header_fails opened_world"
    "\<not> write_fails opened_world"
    by (simp_all add: opened_world_def calm_world_def)
  have w1: "?w\<lparr>buffer := [[''r2'']]\<rparr> = opened_writer"
    by (simp add: opened_writer_def)
  have p1: "?rows \<noteq> [] \<and> flush_rows ?w = int (length ?rows)"
    by (simp add: opened_writer_def)
  have p2: "1 < flush_rows ?w \<and> last_flush_time ?w = Some 0 \<and> 0 \<le> now_micros opened_world \<and>
     flush_interval_seconds ?w \<le> real_of_int 1000000 / 1000000"
    by (simp add: opened_writer_def opened_world_def calm_world_def)
  note inst = flush_triggers [OF h, where rows = ?rows and fmt = "\<lambda>r. r"
      and ?t0.0 = 0 and wait = 1000000 and r = "[''r2'']"]
  note part1 = mp [OF conjunct1 [OF inst] p1]
  note part2 = mp [OF conjunct2 [OF inst] p2]
  note a = conjunct1 [OF part1]
  note b = conjunct1 [OF conjunct2 [OF part1]]
  note c = conjunct2 [OF part2]
  have fc: "flush_count opened_world = 1" "rows_written ?w = 2"
    by (simp_all add: flush_count_def opened_world_def calm_world_def opened_writer_def)
  have t1: "take 1 ?rows = [[''r2'']]" by simp
  from a [rule_format, of 1]
  have a1: "write_each (\<lambda>r. r) [[''r2'']] ?w opened_world = (None, opened_writer, opened_world)"
    unfolding t1 by (simp only: list.map w1 length_Cons list.size)
  have e1: "write_each (\<lambda>r. r) ?rows ?w opened_world =
      do_flush (?w\<lparr>buffer := map (\<lambda>r. r) ?rows\<rparr>) opened_world"
    by (rule write_each_reaching [OF h(1) conjunct1 [OF p1] conjunct2 [OF p1]])
  have d1: "do_flush (?w\<lparr>buffer := map (\<lambda>r. r) ?rows\<rparr>) opened_world =
      (None,
       opened_writer\<lparr>rows_written := 4, buffer := [], last_flush_time := Some 0\<rparr>,
       opened_world\<lparr>files := (files opened_world)(day_one_file \<mapsto>
            file_rows opened_world day_one_file @ ?rows),
          trace := trace opened_world @ [OpWriteRows day_one_file ?rows]\<rparr>)"
    by (simp add: do_flush_def check_rollover_def opened_writer_def opened_world_def calm_world_def
        file_rows_def)
  have d2: "check_time_flush opened_writer ?W2 =
      (None,
       opened_writer\<lparr>rows_written := 3, buffer := [], last_flush_time := Some 1000000\<rparr>,
       opened_world\<lparr>now_micros := 1000000,
          files := (files opened_world)(day_one_file \<mapsto>
            file_rows opened_world day_one_file @ [[''r2'']]),
          trace := trace opened_world @ [OpWriteRows day_one_file [[''r2'']]]\<rparr>)"
    by (simp add: check_time_flush_def Let_def do_flush_def check_rollover_def opened_writer_def
        opened_world_def calm_world_def file_rows_def)
  from b have b': "case write_each (\<lambda>r. r) ?rows ?w opened_world of
      (e, w', W') \<Rightarrow>
        e = None \<and> buffer w' = [] \<and> flush_count W' = 2 \<and> rows_written w' = 4 \<and>
        last (trace W') = OpWriteRows day_one_file ?rows"
    unfolding e1 d1 by (simp add: fc opened_writer_def)
  from c [unfolded w1] have c': "case check_time_flush opened_writer ?W2 of
      (e, w', W') \<Rightarrow>
        e = None \<and> buffer w' = [] \<and> flush_count W' = 2 \<and> rows_written w' = 3 \<and>
        last (trace W') = OpWriteRows day_one_file [[''r2'']] \<and>
        check_time_flush w' W' = (None, w', W')"
    unfolding d2 by (simp add: fc opened_writer_def)
  have q1: "flush_rows ?w = int (length ?rows)"
    by (rule conjunct2 [OF p1])
  have q2: "last_flush_time ?w = Some 0"
    by (rule conjunct1 [OF conjunct2 [OF p2]])
  have q3: "flush_interval_seconds ?w \<le> real_of_int 1000000 / 1000000"
    by (rule conjunct2 [OF conjunct2 [OF conjunct2 [OF p2]]])
  show ?thesis
    using h q1 a1 b' q2 q3 c' by (intro conjI)
qed

text \<open>
  The claim as stated fails for a writer that has never flushed: its time of the last
  flush is not set, and \<open>check_time_flush\<close> returns at once, however long the wait.
\<close>

theorem fresh_writer_no_time_flush:
  "write_row (\<lambda>r. r) [''r1''] fresh_writer calm_world =
     (None, fresh_writer\<lparr>buffer := [[''r1'']]\<rparr>, calm_world) \<and>
   flush_interval_seconds fresh_writer = 1 \<and>
   check_time_flush (fresh_writer\<lparr>buffer := [[''r1'']]\<rparr>) (calm_world\<lparr>now_micros := 10000000\<rparr>) =
     (None, fresh_writer\<lparr>buffer := [[''r1'']]\<rparr>, calm_world\<lparr>now_micros := 10000000\<rparr>) \<and>
   flush_count (calm_world\<lparr>now_micros := 10000000\<rparr>) = 0"
  by (simp add: write_row_def Let_def check_time_flush_def fresh_writer_def new_writer_def
      calm_world_def flush_count_def)

section \<open>Rollover\<close>

lemma file_path_updates:
  "file_path (w\<lparr>buffer := a\<rparr>) = file_path w"
  "file_path (w\<lparr>current_file := b\<rparr>) = file_path w"
  "file_path (w\<lparr>file_handle := c\<rparr>) = file_path w"
  "file_path (w\<lparr>csv_writer := d\<rparr>) = file_path w"
  "file_path (w\<lparr>start_date := e\<rparr>) = file_path w"
  "file_path (w\<lparr>last_flush_time := f\<rparr>) = file_path w"
  "file_path (w\<lparr>rows_written := g\<rparr>) = file_path w"
  by (simp_all add: file_path_def get_filename_def fun_eq_iff)

lemma rollover_paths_distinct:
  assumes "valid_date D" "valid_date T" "D \<noteq> T"
  shows "file_path w D None \<noteq> file_path w D (Some T)"
    and "file_path w D None \<noteq> file_path w T None"
    and "file_path w D (Some T) \<noteq> file_path w T None"
  using assms by (simp_all add: file_path_None file_path_eq_iff)

text \<open>
  Claim C1, as the code has it. A writer opened on date D (its file is open and exists)
  holds buffered rows; the calendar date is now T, another date (D + 1, say), no file
  operation fails, and a flush is triggered. Then the writer closes the open file and
  renames it so that its START segment stays D and its END segment is the current date
  T; the rename is done only if no file of that name exists (otherwise both files are
  left as they are, nothing is overwritten); then a new file is opened for T, whose
  START and END segments are both T, and the buffered rows are written to it.
\<close>

theorem rollover_renames_and_reopens:
  assumes "buffer w \<noteq> []"
    and "start_date w = Some D"
    and "current_file w = Some (file_path w D None)"
    and "file_handle w = Some (file_path w D None)"
    and "csv_writer w = Some (file_path w D None)"
    and "files W (file_path w D None) = Some old_rows"
    and "today_date W = T" and "D \<noteq> T" and "valid_date D" and "valid_date T"
    and "\<not> open_fails W" and "\<not> header_fails W" and "\<not> write_fails W" and "\<not> rename_fails W"
  shows "case do_flush w W of
     (e, w', W') \<Rightarrow>
       e = None \<and>
       get_filename w D (Some T) =
         underlying w @ ''_'' @ venue_token w @ ''_OPTION_CHAIN_1S_'' @ strftime_ymd D @ ''_'' @
         strftime_ymd T @ ''.csv'' \<and>
       get_filename w T None =
         underlying w @ ''_'' @ venue_token w @ ''_OPTION_CHAIN_1S_'' @ strftime_ymd T @ ''_'' @
         strftime_ymd T @ ''.csv'' \<and>
       (if files W (file_path w D (Some T)) = None
        then files W' (file_path w D (Some T)) = Some old_rows \<and>
             files W' (file_path w D None) = None
        else files W' (file_path w D (Some T)) = files W (file_path w D (Some T)) \<and>
             files W' (file_path w D None) = Some old_rows) \<and>
       trace W' =
         trace W @ [OpClose (file_path w D None)] @
         (if files W (file_path w D (Some T)) = None
          then [OpRename (file_path w D None) (file_path w D (Some T))] else []) @
         [OpOpen (file_path w T None)] @
         (if files W (file_path w T None) = None then [OpHeader (file_path w T None)] else []) @
         [OpWriteRows (file_path w T None) (buffer w)] \<and>
       start_date w' = Some T \<and>
       current_file w' = Some (file_path w T None) \<and>
       file_handle w' = Some (file_path w T None) \<and>
       csv_writer w' = Some (file_path w T None) \<and>
       buffer w' = [] \<and>
       files W' (file_path w T None) =
         Some ((case files W (file_path w T None) of None \<Rightarrow> [COLUMNS] | Some rows \<Rightarrow> rows) @
               buffer w)"
proof -
  note ne = rollover_paths_distinct [OF assms(9,10,8), of w]
  note ne' = ne [symmetric]
  have names: "get_filename w D (Some T) =
         underlying w @ ''_'' @ venue_token w @ ''_OPTION_CHAIN_1S_'' @ strftime_ymd D @ ''_'' @
         strftime_ymd T @ ''.csv''"
    "get_filename w T None =
         underlying w @ ''_'' @ venue_token w @ ''_OPTION_CHAIN_1S_'' @ strftime_ymd T @ ''_'' @
         strftime_ymd T @ ''.csv''"
    by (simp_all add: get_filename_def)
  show ?thesis
    unfolding names
    using assms ne ne'
    by (cases "files W (file_path w D (Some T))"; cases "files W (file_path w T None)")
       (simp_all add: do_flush_def check_rollover_def rename_with_end_date_def open_file_def
          close_file_def Let_def file_path_updates file_rows_def)
qed

lemma example_paths:
  "file_path opened_writer day_one None = day_one_file"
  "file_path opened_writer day_one (Some day_two) = renamed_file"
  "file_path opened_writer day_two None = day_two_file"
  by (simp_all add: file_path_def get_filename_def strftime_ymd_def zero_pad_def str_nat.simps
      digit_char_def day_one_def day_two_def day_one_file_def renamed_file_def day_two_file_def
      opened_writer_def)

lemma example_files_distinct:
  "day_one_file \<noteq> renamed_file" "day_one_file \<noteq> day_two_file" "renamed_file \<noteq> day_two_file"
  by (simp_all add: day_one_file_def renamed_file_def day_two_file_def)

lemma example_rollover_value:
  "do_flush opened_writer (opened_world\<lparr>today_date := day_two\<rparr>) =
     (None,
      opened_writer\<lparr>buffer := [], current_file := Some day_two_file,
        file_handle := Some day_two_file, csv_writer := Some day_two_file,
        start_date := Some day_two, last_flush_time := Some 0, rows_written := 3\<rparr>,
      opened_world\<lparr>today_date := day_two,
        files := Map.empty(renamed_file \<mapsto> [COLUMNS, [''r0''], [''r1'']],
                           day_two_file \<mapsto> [COLUMNS, [''r2'']]),
        trace := trace opened_world @
          [OpClose day_one_file, OpRename day_one_file renamed_file, OpOpen day_two_file,
           OpHeader day_two_file, OpWriteRows day_two_file [[''r2'']]]\<rparr>)"
proof -
  have sd: "start_date opened_writer = Some day_one" "day_one \<noteq> day_two"
    "current_file opened_writer = Some day_one_file" "file_handle opened_writer = Some day_one_file"
    "buffer opened_writer = [[''r2'']]" "rows_written opened_writer = 2"
    by (simp_all add: opened_writer_def day_one_def day_two_def)
  have W: "files opened_world = Map.empty(day_one_file \<mapsto> [COLUMNS, [''r0''], [''r1'']])"
    "\<not> open_fails opened_world" "\<not> header_fails opened_world" "\<not> write_fails opened_world"
    "\<not> rename_fails opened_world" "now_micros opened_world = 0"
    by (simp_all add: opened_world_def calm_world_def)
  show ?thesis
    using example_files_distinct example_files_distinct [symmetric] sd(2) [symmetric]
    by (simp add: do_flush_def check_rollover_def rename_with_end_date_def open_file_def
        close_file_def Let_def file_path_updates file_rows_def example_paths sd W fun_upd_twist)
qed


theorem rollover_renames_and_reopens_witness:
  "buffer opened_writer \<noteq> [] \<and> start_date opened_writer = Some day_one \<and>
   current_file opened_writer = Some day_one_file \<and>
   file_path opened_writer day_one None = day_one_file \<and>
   file_path opened_writer day_one (Some day_two) = renamed_file \<and>
   file_path opened_writer day_two None = day_two_file \<and>
   today_date (opened_world\<lparr>today_date := day_two\<rparr>) = day_two \<and>
   day_one \<noteq> day_two \<and> valid_date day_one \<and> valid_date day_two \<and>
   (case do_flush opened_writer (opened_world\<lparr>today_date := day_two\<rparr>) of
      (e, w', W') \<Rightarrow>
        e = None \<and>
        files W' renamed_file = Some [COLUMNS, [''r0''], [''r1'']] \<and>
        files W' day_one_file = None \<and>
        files W' day_two_file = Some [COLUMNS, [''r2'']] \<and>
        trace W' = trace opened_world @
          [OpClose day_one_file, OpRename day_one_file renamed_file, OpOpen day_two_file,
           OpHeader day_two_file, OpWriteRows day_two_file [[''r2'']]] \<and>
        start_date w' = Some day_two \<and> current_file w' = Some day_two_file \<and> buffer w' = [])"
proof -
  let ?W = "opened_world\<lparr>today_date := day_two\<rparr>"
  have h1: "buffer opened_writer \<noteq> []" and h2: "start_date opened_writer = Some day_one"
    by (simp_all add: opened_writer_def)
  have h3: "current_file opened_writer = Some (file_path opened_writer day_one None)"
    and h4: "file_handle opened_writer = Some (file_path opened_writer day_one None)"
    and h5: "csv_writer opened_writer = Some (file_path opened_writer day_one None)"
    unfolding example_paths by (simp_all add: opened_writer_def)
  have h6: "files ?W (file_path opened_writer day_one None) = Some [COLUMNS, [''r0''], [''r1'']]"
    unfolding example_paths by (simp add: opened_world_def)
  have h7: "today_date ?W = day_two" by simp
  have h8: "day_one \<noteq> day_two" by (simp add: day_one_def day_two_def)
  have h9: "valid_date day_one" and h10: "valid_date day_two"
    by (simp_all add: valid_date_def day_one_def day_two_def)
  have h11: "\<not> open_fails ?W" and h12: "\<not> header_fails ?W" and h13: "\<not> write_fails ?W"
    and h14: "\<not> rename_fails ?W"
    by (simp_all add: opened_world_def calm_world_def)
  have free: "files opened_world renamed_file = None" "files opened_world day_two_file = None"
    using example_files_distinct by (simp_all add: opened_world_def calm_world_def)
  have buf: "buffer opened_writer = [[''r2'']]"
    by (simp add: opened_writer_def)
  obtain e w' W' where d: "do_flush opened_writer ?W = (e, w', W')"
    by (metis prod_cases3)
  from rollover_renames_and_reopens [OF h1 h2 h3 h4 h5 h6 h7 h8 h9 h10 h11 h12 h13 h14]
  have "e = None \<and>
        files W' renamed_file = Some [COLUMNS, [''r0''], [''r1'']] \<and>
        files W' day_one_file = None \<and>
        files W' day_two_file = Some [COLUMNS, [''r2'']] \<and>
        trace W' = trace opened_world @
          [OpClose day_one_file, OpRename day_one_file renamed_file, OpOpen day_two_file,
           OpHeader day_two_file, OpWriteRows day_two_file [[''r2'']]] \<and>
        start_date w' = Some day_two \<and> current_file w' = Some day_two_file \<and> buffer w' = []"
    unfolding d example_paths by (simp add: free buf)
  with h1 h2 h8 h9 h10 show ?thesis
    unfolding d by (simp add: example_paths) (simp add: opened_writer_def)
qed

text \<open>
  The claim as stated fails: for the writer opened on 2024-01-15 and flushed on
  2024-01-16, the old file ends up under the name whose END segment is 20240116; no
  file whose END segment is 20240115 is left.
\<close>

theorem rollover_end_segment_is_today:
  "start_date opened_writer = Some day_one \<and>
   current_file opened_writer = Some ''out/NIFTY_NSEFO_OPTION_CHAIN_1S_20240115_20240115.csv'' \<and>
   (case do_flush opened_writer (opened_world\<lparr>today_date := day_two\<rparr>) of
      (e, w', W') \<Rightarrow>
        OpRename ''out/NIFTY_NSEFO_OPTION_CHAIN_1S_20240115_20240115.csv''
                 ''out/NIFTY_NSEFO_OPTION_CHAIN_1S_20240115_20240116.csv'' \<in> set (trace W') \<and>
        files W' ''out/NIFTY_NSEFO_OPTION_CHAIN_1S_20240115_20240116.csv'' =
          Some [COLUMNS, [''r0''], [''r1'']] \<and>
        files W' ''out/NIFTY_NSEFO_OPTION_CHAIN_1S_20240115_20240115.csv'' = None \<and>
        current_file w' = Some ''out/NIFTY_NSEFO_OPTION_CHAIN_1S_20240116_20240116.csv'')"
  unfolding example_rollover_value
  using example_files_distinct
  by (simp add: opened_writer_def opened_world_def calm_world_def)
     (simp add: day_one_file_def renamed_file_def day_two_file_def)

end
